theory Spec2Isabelle
  imports Complex_Main "HOL-Library.AList"
begin

chapter \<open>The model\<close>

section \<open>Projection engine (ai-analysis-service, generateGrowthProjections)\<close>

text \<open>
  JavaScript numbers are modelled as real numbers in the projection formulas: the
  formulas are read as the arithmetic they denote, rounding of IEEE doubles and the
  values NaN and Infinity are outside the model. \<open>Math.log10\<close> is \<open>log 10\<close>,
  \<open>Math.sqrt\<close> is \<open>sqrt\<close>, \<open>Math.min\<close> and \<open>Math.max\<close> are \<open>min\<close> and \<open>max\<close>.
\<close>

definition estimateConversionRate :: "real \<Rightarrow> real" where
  "estimateConversionRate rank =
     (if rank \<le> 1 then 0.12
      else if rank \<le> 3 then 0.08
      else if rank \<le> 5 then 0.05
      else if rank \<le> 10 then 0.03
      else if rank \<le> 20 then 0.01
      else if rank \<le> 50 then 0.005
      else 0.001)"

definition difficultyFactor :: "real \<Rightarrow> real" where
  "difficultyFactor difficulty = 1 - difficulty / 200"

definition rankFactor :: "real \<Rightarrow> real" where
  "rankFactor currentRank = min (log 10 (currentRank + 10) / 2) 1"

text \<open>The local \<open>improvement\<close> of \<open>estimateRankImprovement\<close>, before the cap.\<close>

definition improvement :: "real \<Rightarrow> real \<Rightarrow> real \<Rightarrow> real" where
  "improvement currentRank difficulty months =
     rankFactor currentRank * difficultyFactor difficulty * sqrt months * 20"

definition estimateRankImprovement :: "real \<Rightarrow> real \<Rightarrow> real \<Rightarrow> real" where
  "estimateRankImprovement currentRank difficulty months =
     min (currentRank - 1) (improvement currentRank difficulty months)"

text \<open>
  The variant of the dashboard page (metadata boost): the same function with the
  improvement multiplied by \<open>metadataBoostFactor = 1.2\<close>.
\<close>

definition metadataBoostFactor :: real where
  "metadataBoostFactor = 1.2"

definition estimateRankImprovementBoost :: "real \<Rightarrow> real \<Rightarrow> real \<Rightarrow> real" where
  "estimateRankImprovementBoost currentRank difficulty months =
     min (currentRank - 1)
       (rankFactor currentRank * difficultyFactor difficulty * sqrt months * 20 * metadataBoostFactor)"

text \<open>
  The body of the loop over the keywords to project, for one keyword and one
  timeframe: \<open>projectedRank = Math.max(1, currentRank - rankImprovement)\<close> and
  \<open>monthlyDownloads = volume * conversionRate * 30\<close>.
\<close>

definition projectedRank :: "real \<Rightarrow> real \<Rightarrow> real \<Rightarrow> real" where
  "projectedRank currentRank difficulty months =
     max 1 (currentRank - estimateRankImprovement currentRank difficulty months)"

definition projectedRankBoost :: "real \<Rightarrow> real \<Rightarrow> real \<Rightarrow> real" where
  "projectedRankBoost currentRank difficulty months =
     max 1 (currentRank - estimateRankImprovementBoost currentRank difficulty months)"

definition monthlyDownloads :: "real \<Rightarrow> real \<Rightarrow> real \<Rightarrow> real \<Rightarrow> real" where
  "monthlyDownloads volume currentRank difficulty months =
     (let conversionRate = estimateConversionRate (projectedRank currentRank difficulty months)
      in volume * conversionRate * 30)"

section \<open>Strings and numbers of the JavaScript runtime\<close>

text \<open>
  A string is the list of its code units. The runtime's string functions are modelled on
  the ASCII range: \<open>toLowerCase\<close> maps the letters A to Z and leaves every other
  code unit as it is, and white space is the space, tab, line feed, vertical tab, form
  feed and carriage return.
\<close>

definition toLowerChar :: "char \<Rightarrow> char" where
  "toLowerChar c =
     (case map_of (zip ''ABCDEFGHIJKLMNOPQRSTUVWXYZ'' ''abcdefghijklmnopqrstuvwxyz'') c of
        Some l \<Rightarrow> l
      | None \<Rightarrow> c)"

definition toLowerCase :: "string \<Rightarrow> string" where
  "toLowerCase s = map toLowerChar s"

definition isWhiteSpace :: "char \<Rightarrow> bool" where
  "isWhiteSpace c = (c \<in> set [CHR '' '', CHR 0x09, CHR 0x0A, CHR 0x0B, CHR 0x0C, CHR 0x0D])"

definition trim :: "string \<Rightarrow> string" where
  "trim s = rev (dropWhile isWhiteSpace (rev (dropWhile isWhiteSpace s)))"

text \<open>
  The values a parsed cell can hold. A finite number is its real value (rounding to
  a double is outside the model); the infinities and NaN are values of their own, as
  \<open>parseFloat\<close> can return them.
\<close>

datatype number = Finite real | PosInfinity | NegInfinity | NaN

definition isNaN :: "number \<Rightarrow> bool" where
  "isNaN n = (n = NaN)"

definition isDigit :: "char \<Rightarrow> bool" where
  "isDigit c = (c \<in> set ''0123456789'')"

definition digitValue :: "char \<Rightarrow> nat" where
  "digitValue c =
     (case map_of (zip ''0123456789'' [0, 1, 2, 3, 4, 5, 6, 7, 8, 9]) c of
        Some d \<Rightarrow> d
      | None \<Rightarrow> 0)"

definition digitsValue :: "string \<Rightarrow> nat" where
  "digitsValue ds = foldl (\<lambda>a c. 10 * a + digitValue c) 0 ds"

text \<open>
  The exponent part of a decimal literal: \<open>e\<close> or \<open>E\<close>, an optional sign and at
  least one digit; anything else is no exponent.
\<close>

definition exponentPart :: "string \<Rightarrow> int" where
  "exponentPart s =
     (case s of
        [] \<Rightarrow> 0
      | c # r \<Rightarrow>
          if c = CHR ''e'' \<or> c = CHR ''E'' then
            (case r of
               [] \<Rightarrow> 0
             | d # r' \<Rightarrow>
                 if d = CHR ''-'' then
                   (if takeWhile isDigit r' = [] then 0
                    else - int (digitsValue (takeWhile isDigit r')))
                 else if d = CHR ''+'' then int (digitsValue (takeWhile isDigit r'))
                 else int (digitsValue (takeWhile isDigit r)))
          else 0)"

text \<open>
  The unsigned part of \<open>parseFloat\<close>: \<open>Infinity\<close>, or the longest prefix that is a
  decimal literal (digits, an optional fraction, an optional exponent), with at least
  one digit before the exponent; NaN when there is no such prefix.
\<close>

definition parseUnsigned :: "string \<Rightarrow> number" where
  "parseUnsigned s =
     (if take 8 s = ''Infinity'' then PosInfinity
      else
        let intDigits = takeWhile isDigit s;
            afterInt = dropWhile isDigit s;
            fracDigits = (case afterInt of
                            [] \<Rightarrow> []
                          | c # r \<Rightarrow> if c = CHR ''.'' then takeWhile isDigit r else []);
            afterFrac = (case afterInt of
                           [] \<Rightarrow> []
                         | c # r \<Rightarrow> if c = CHR ''.'' then dropWhile isDigit r else afterInt)
        in if intDigits = [] \<and> fracDigits = [] then NaN
           else Finite ((real (digitsValue intDigits)
                          + real (digitsValue fracDigits) / 10 ^ length fracDigits)
                        * 10 powi exponentPart afterFrac))"

definition negate :: "number \<Rightarrow> number" where
  "negate n =
     (case n of
        Finite r \<Rightarrow> Finite (- r)
      | PosInfinity \<Rightarrow> NegInfinity
      | NegInfinity \<Rightarrow> PosInfinity
      | NaN \<Rightarrow> NaN)"

definition parseFloat :: "string \<Rightarrow> number" where
  "parseFloat s =
     (case dropWhile isWhiteSpace s of
        [] \<Rightarrow> NaN
      | c # r \<Rightarrow>
          if c = CHR ''-'' then negate (parseUnsigned r)
          else if c = CHR ''+'' then parseUnsigned r
          else parseUnsigned (c # r))"

section \<open>Flexible parser (flexible-csv-parser.ts)\<close>

text \<open>
  A row, as the CSV reader hands it over with \<open>header: true\<close>: the cells of one
  line under the header names, in header order. \<open>row[k]\<close> is \<open>map_of row k\<close>
  (\<open>None\<close> for \<open>undefined\<close>) and \<open>Object.keys(row)\<close> is \<open>map fst row\<close>. Cells are
  strings: the reader is called without dynamic typing. Header names that
  \<open>Object.prototype\<close> defines (such as \<open>constructor\<close>) are outside the model.
\<close>

type_synonym row = "(string \<times> string) list"

datatype fieldValue = NumV number | StrV string

record KeywordData =
  keyword :: string
  props :: "(string \<times> fieldValue) list"

text \<open>The fields \<open>id\<close> and \<open>keywords\<close> are \<open>datasetId\<close> and \<open>keywordsL\<close> here.\<close>

record ParsedAppData =
  datasetId :: string
  appDetails :: "(string \<times> fieldValue) list"
  keywordsL :: "KeywordData list"
  missingFields :: "string list"
  availableFields :: "string list"

datatype parseError = EmptyFile | MissingKeywordColumn | KeywordColumnNotFound

definition fieldMap :: "(string \<times> string) list" where
  "fieldMap =
     [(''app name'', ''appName''),
      (''app_name'', ''appName''),
      (''application name'', ''appName''),
      (''app id'', ''appId''),
      (''app_id'', ''appId''),
      (''bundle id'', ''appId''),
      (''package name'', ''appId''),
      (''store'', ''store''),
      (''platform'', ''store''),
      (''category'', ''category''),
      (''installs'', ''currentInstalls''),
      (''downloads'', ''currentInstalls''),
      (''current installs'', ''currentInstalls''),
      (''keyword'', ''keyword''),
      (''term'', ''keyword''),
      (''search term'', ''keyword''),
      (''query'', ''keyword''),
      (''volume'', ''volume''),
      (''search volume'', ''volume''),
      (''monthly searches'', ''volume''),
      (''traffic'', ''volume''),
      (''difficulty'', ''difficulty''),
      (''keyword difficulty'', ''difficulty''),
      (''competition'', ''difficulty''),
      (''rank'', ''currentRank''),
      (''current rank'', ''currentRank''),
      (''position'', ''currentRank''),
      (''rankings'', ''currentRank''),
      (''relevancy'', ''relevancy''),
      (''relevance'', ''relevancy''),
      (''relevance score'', ''relevancy''),
      (''reach'', ''maximumReach''),
      (''maximum reach'', ''maximumReach''),
      (''potential reach'', ''maximumReach''),
      (''cpc'', ''cpc''),
      (''cost per click'', ''cpc'')]"

text \<open>\<open>fieldMap[field.toLowerCase()] || field.toLowerCase()\<close>\<close>

definition standardField :: "string \<Rightarrow> string" where
  "standardField field =
     (case map_of fieldMap (toLowerCase field) of
        Some s \<Rightarrow> s
      | None \<Rightarrow> toLowerCase field)"

definition appFields :: "string list" where
  "appFields = [''appName'', ''appId'', ''store'', ''category'', ''currentInstalls'']"

definition numericFields :: "string list" where
  "numericFields =
     [''volume'', ''difficulty'', ''currentRank'', ''relevancy'', ''traffic'', ''cpc'',
      ''maximumReach'']"

definition cleanNumeric :: "string \<Rightarrow> string" where
  "cleanNumeric v = filter (\<lambda>c. c \<notin> set '',%$'') v"

definition parseNumericValue :: "string \<Rightarrow> number" where
  "parseNumericValue v =
     (let cleanValue = cleanNumeric v;
          parsedValue = parseFloat cleanValue
      in if isNaN parsedValue then Finite 0 else parsedValue)"

fun findInFieldMap :: "row \<Rightarrow> string \<Rightarrow> (string \<times> string) list \<Rightarrow> string option" where
  "findInFieldMap r targetField [] = None"
| "findInFieldMap r targetField ((csvField, std) # rest) =
     (if std = targetField \<and> map_of r csvField \<noteq> None then Some csvField
      else findInFieldMap r targetField rest)"

definition findMatchingField :: "row \<Rightarrow> string \<Rightarrow> string option" where
  "findMatchingField r targetField =
     (if map_of r targetField \<noteq> None then Some targetField
      else case findInFieldMap r targetField fieldMap of
             Some csvField \<Rightarrow> Some csvField
           | None \<Rightarrow> find (\<lambda>field. toLowerCase field = toLowerCase targetField) (map fst r))"

definition findKeywordField :: "row \<Rightarrow> string option" where
  "findKeywordField r =
     find (\<lambda>field.
             let lowercaseField = toLowerCase field
             in lowercaseField = ''keyword'' \<or> lowercaseField = ''term''
                \<or> lowercaseField = ''search term'' \<or> lowercaseField = ''query''
                \<or> map_of fieldMap lowercaseField = Some ''keyword'')
          (map fst r)"

text \<open>One step of \<open>appFields.forEach\<close>, on the first row.\<close>

definition appDetailStep :: "row \<Rightarrow> (string \<times> fieldValue) list \<Rightarrow> string \<Rightarrow> (string \<times> fieldValue) list" where
  "appDetailStep firstRow details field =
     (case findMatchingField firstRow field of
        None \<Rightarrow> details
      | Some matchingField \<Rightarrow>
          (case map_of firstRow matchingField of
             None \<Rightarrow> details
           | Some v \<Rightarrow>
               if field = ''currentInstalls'' \<and> v \<noteq> [] then
                 AList.update field (NumV (parseNumericValue v)) details
               else if v \<noteq> [] then AList.update field (StrV v) details
               else details))"

text \<open>
  One step of \<open>Object.keys(row).forEach\<close> in the row loop: the cell under \<open>field\<close>
  is stored under its standard name, unless that name is an app field or the keyword,
  or the cell is absent or empty.
\<close>

definition processField :: "row \<Rightarrow> (string \<times> fieldValue) list \<Rightarrow> string \<Rightarrow> (string \<times> fieldValue) list" where
  "processField r keywordData field =
     (let std = standardField field
      in if std \<in> set appFields \<or> std = ''keyword'' then keywordData
         else case map_of r field of
                None \<Rightarrow> keywordData
              | Some v \<Rightarrow>
                  if v = [] then keywordData
                  else if std \<in> set numericFields then
                    AList.update std (NumV (parseNumericValue v)) keywordData
                  else AList.update std (StrV v) keywordData)"

definition buildKeywordData :: "row \<Rightarrow> string \<Rightarrow> KeywordData" where
  "buildKeywordData r kw = \<lparr>keyword = kw, props = foldl (processField r) [] (map fst r)\<rparr>"

text \<open>
  The non-empty cells of a row under the headers that are mapped to the canonical field
  \<open>f\<close>, in column order: the cells the row loop stores under \<open>f\<close>, one after the other.
\<close>

definition cellsMappedTo :: "row \<Rightarrow> string \<Rightarrow> string list" where
  "cellsMappedTo r f = map snd (filter (\<lambda>(field, cell). standardField field = f \<and> cell \<noteq> []) r)"

text \<open>
  The loop \<open>data.forEach\<close>: the state is the set of keywords seen (as the list of
  them) and the records pushed so far.
\<close>

fun processRows :: "string \<Rightarrow> string list \<Rightarrow> KeywordData list \<Rightarrow> row list \<Rightarrow> KeywordData list" where
  "processRows keywordField seenKeywords acc [] = acc"
| "processRows keywordField seenKeywords acc (r # rest) =
     (case map_of r keywordField of
        None \<Rightarrow> processRows keywordField seenKeywords acc rest
      | Some kw \<Rightarrow>
          if kw = [] \<or> kw \<in> set seenKeywords then processRows keywordField seenKeywords acc rest
          else processRows keywordField (kw # seenKeywords) (acc @ [buildKeywordData r kw]) rest)"

text \<open>
  The locals \<open>availableFields\<close> and \<open>missingFields\<close> of \<open>processCSVResults\<close>:
  the non-blank header names of the first row, and the required fields (the keyword
  alone) that no header name maps to.
\<close>

definition availableFieldsOf :: "row \<Rightarrow> string list" where
  "availableFieldsOf firstRow = filter (\<lambda>key. trim key \<noteq> []) (map fst firstRow)"

definition missingFieldsOf :: "string list \<Rightarrow> string list" where
  "missingFieldsOf available =
     filter (\<lambda>field. field \<notin> set (map standardField available)
                 \<and> \<not> list_ex (\<lambda>f. map_of fieldMap (toLowerCase f) = Some field) available)
       [''keyword'']"

text \<open>
  \<open>processCSVResults\<close>. The identifier comes from \<open>Math.random\<close>; it is the
  parameter \<open>newId\<close>.
\<close>

fun processCSVResults :: "string \<Rightarrow> row list \<Rightarrow> parseError + ParsedAppData" where
  "processCSVResults newId [] = Inl EmptyFile"
| "processCSVResults newId (firstRow # rest) =
     (let data = firstRow # rest;
          available = availableFieldsOf firstRow;
          standardizedAvailableFields = map standardField available;
          missing = missingFieldsOf available
      in if ''keyword'' \<in> set missing then Inl MissingKeywordColumn
         else
           (let details = foldl (appDetailStep firstRow) [] appFields
            in case findKeywordField firstRow of
                 None \<Rightarrow> Inl KeywordColumnNotFound
               | Some keywordField \<Rightarrow>
                   Inr \<lparr>datasetId = newId,
                        appDetails = details,
                        keywordsL = processRows keywordField [] [] data,
                        missingFields = missing,
                        availableFields = standardizedAvailableFields\<rparr>))"

section \<open>Metadata options (generateOption of the metadata route)\<close>

text \<open>
  The keyword list of \<open>generateOption\<close>. The candidates are the keywords followed by
  one modified version of each (\<open>modifier + ' ' + keyword\<close>, the modifier picked at
  random: \<open>picks\<close> holds the modifier picked for each keyword), then shuffled by a sort
  with a random comparator. The loop runs over the shuffled list, whatever order the
  shuffle produced.
\<close>

definition modifiers :: "string list" where
  "modifiers = [''pro'', ''best'', ''top'', ''smart'', ''easy'', ''professional'']"

definition baseKeywords :: "string list \<Rightarrow> string list \<Rightarrow> string list" where
  "baseKeywords kws picks = kws @ map (\<lambda>(modifier, kw). modifier @ '' '' @ kw) (zip picks kws)"

text \<open>One pass of \<open>for (const keyword of shuffled)\<close>.\<close>

definition appendKeyword :: "string \<Rightarrow> string \<Rightarrow> string" where
  "appendKeyword keywordsString kw =
     (if length (keywordsString @ kw) \<le> 97
      then keywordsString @ (if keywordsString \<noteq> [] then '', '' else []) @ kw
      else keywordsString)"

definition keywordsStringOf :: "string list \<Rightarrow> string" where
  "keywordsStringOf shuffled = foldl appendKeyword [] shuffled"

section \<open>Strict parser (csv-parser.ts, parseCSV)\<close>

text \<open>
  \<open>s.split(c)\<close> for a one-character separator: the pieces between the occurrences of
  \<open>c\<close>; the empty string gives one empty piece.
\<close>

fun split :: "char \<Rightarrow> string \<Rightarrow> string list" where
  "split c [] = [[]]"
| "split c (x # xs) =
     (if x = c then [] # split c xs
      else (case split c xs of
              [] \<Rightarrow> [[x]]
            | piece # pieces \<Rightarrow> (x # piece) # pieces))"

text \<open>
  \<open>parseInt\<close> without a radix: leading white space and a sign are skipped, the prefix
  \<open>0x\<close> or \<open>0X\<close> selects base 16, and the longest run of digits of the base is read;
  \<open>None\<close> is NaN. The integer is exact (no rounding to a double).
\<close>

definition isHexDigit :: "char \<Rightarrow> bool" where
  "isHexDigit c = (c \<in> set ''0123456789abcdefABCDEF'')"

definition hexDigitValue :: "char \<Rightarrow> nat" where
  "hexDigitValue c =
     (case map_of (zip ''0123456789abcdefABCDEF''
                       [0, 1, 2, 3, 4, 5, 6, 7, 8, 9, 10, 11, 12, 13, 14, 15, 10, 11, 12, 13, 14, 15]) c of
        Some d \<Rightarrow> d
      | None \<Rightarrow> 0)"

definition parseIntUnsigned :: "string \<Rightarrow> nat option" where
  "parseIntUnsigned s =
     (if take 2 s = ''0x'' \<or> take 2 s = ''0X'' then
        (let ds = takeWhile isHexDigit (drop 2 s)
         in if ds = [] then None else Some (foldl (\<lambda>a c. 16 * a + hexDigitValue c) 0 ds))
      else
        (let ds = takeWhile isDigit s
         in if ds = [] then None else Some (digitsValue ds)))"

definition parseInt :: "string \<Rightarrow> int option" where
  "parseInt s =
     (case dropWhile isWhiteSpace s of
        [] \<Rightarrow> None
      | c # r \<Rightarrow>
          if c = CHR ''-'' then map_option (\<lambda>n. - int n) (parseIntUnsigned r)
          else if c = CHR ''+'' then map_option int (parseIntUnsigned r)
          else map_option int (parseIntUnsigned (c # r)))"

definition EXPECTED_HEADERS :: "string list" where
  "EXPECTED_HEADERS =
     [''App Name'', ''App ID'', ''Store'', ''Device'', ''Country Code'', ''Language Code'',
      ''Main App ID'', ''Main App Name'', ''Keyword'', ''Keyword List'', ''Starred'',
      ''Volume'', ''Difficulty'', ''Maximum Reach'', ''Branded'', ''Branded App ID'',
      ''Branded App Name'', ''KEI'', ''Chance'', ''Relevancy Score'']"

text \<open>
  The record \<open>parseCSV\<close> builds for a row (\<open>KeywordData\<close> of the strict parser).
  Its fields \<open>keyword\<close>, \<open>volume\<close> and \<open>difficulty\<close> are \<open>keywordS\<close>,
  \<open>volumeS\<close> and \<open>difficultyS\<close> here; \<open>None\<close> is \<open>undefined\<close>.
\<close>

record StrictKeywordData =
  appName :: string
  appId :: string
  keywordS :: string
  store :: string
  device :: string
  countryCode :: string
  languageCode :: string
  mainAppId :: string
  mainAppName :: string
  keywordList :: string
  starred :: bool
  volumeS :: "int option"
  difficultyS :: int
  maximumReach :: int
  branded :: bool
  brandedAppId :: "string option"
  brandedAppName :: "string option"
  kei :: int
  chance :: int
  relevancyScore :: int

text \<open>
  The errors \<open>parseCSV\<close> throws, with the data of their messages: a row error holds
  the row number \<open>i + 1\<close> of its message.
\<close>

datatype rowError =
    WrongColumnCount nat nat nat
  | MissingValues nat "string list"

datatype strictError =
    NotCsvFile
  | FileEmpty
  | NoDataRow
  | HeaderIssues "string list" "string list"
  | RowIssues "rowError list"
  | NoValidRows

text \<open>\<open>replace(/^["']|["']$/g, '').trim()\<close>: one quote off the front, one off the end, then trim.\<close>

definition isQuote :: "char \<Rightarrow> bool" where
  "isQuote c = (c = CHR 0x22 \<or> c = CHR 0x27)"

definition stripQuotes :: "string \<Rightarrow> string" where
  "stripQuotes s =
     (let s1 = (case s of [] \<Rightarrow> [] | c # r \<Rightarrow> if isQuote c then r else s)
      in if s1 \<noteq> [] \<and> isQuote (last s1) then butlast s1 else s1)"

definition cleanHeader :: "string \<Rightarrow> string" where
  "cleanHeader header = trim (stripQuotes header)"

definition cleanValue :: "string \<Rightarrow> string" where
  "cleanValue v = trim (stripQuotes v)"

definition detectSeparator :: "string \<Rightarrow> char" where
  "detectSeparator firstLine =
     (let commaCount = length (filter (\<lambda>c. c = CHR '','') firstLine);
          tabCount = length (filter (\<lambda>c. c = CHR 0x09) firstLine)
      in if commaCount > tabCount then CHR '','' else CHR 0x09)"

definition missingColumns :: "string list \<Rightarrow> string list" where
  "missingColumns headers =
     filter (\<lambda>expected. \<not> list_ex (\<lambda>header. toLowerCase header = toLowerCase expected) headers)
       EXPECTED_HEADERS"

definition extraColumns :: "string list \<Rightarrow> string list" where
  "extraColumns headers =
     filter (\<lambda>header. \<not> list_ex (\<lambda>expected. toLowerCase expected = toLowerCase header)
                          EXPECTED_HEADERS)
       headers"

text \<open>
  \<open>headerMap.get(columnName.toLowerCase())\<close>: the map is built from the headers in
  order, so of two equal header names the later index stays.
\<close>

definition headerIndex :: "string list \<Rightarrow> string \<Rightarrow> nat option" where
  "headerIndex headers columnName =
     map_of (rev (zip (map toLowerCase headers) [0 ..< length headers])) (toLowerCase columnName)"

definition getValue :: "string list \<Rightarrow> string list \<Rightarrow> string \<Rightarrow> string" where
  "getValue headers vals columnName =
     (case headerIndex headers columnName of
        Some index \<Rightarrow> vals ! index
      | None \<Rightarrow> [])"

definition parseBoolean :: "string \<Rightarrow> bool" where
  "parseBoolean v = (toLowerCase v = ''true'' \<or> toLowerCase v = ''yes'' \<or> v = ''1'')"

definition parseNumber :: "string \<Rightarrow> int option \<Rightarrow> int option \<Rightarrow> int" where
  "parseNumber v minV maxV =
     (case parseInt v of
        None \<Rightarrow> 0
      | Some num \<Rightarrow>
          if minV \<noteq> None \<and> num < the minV then the minV
          else if maxV \<noteq> None \<and> num > the maxV then the maxV
          else num)"

text \<open>\<open>a || b\<close> on strings: the empty string is falsy.\<close>

definition orElse :: "string \<Rightarrow> string \<Rightarrow> string" where
  "orElse a b = (if a \<noteq> [] then a else b)"

definition orUndefined :: "string \<Rightarrow> string option" where
  "orUndefined a = (if a \<noteq> [] then Some a else None)"

text \<open>
  The body of the row loop for the line of index \<open>i\<close>: the row's error, or its record.
  The cells are read through \<open>getValue\<close> only after the column count is checked, so
  every index read is in range.
\<close>

definition parseRow :: "char \<Rightarrow> string list \<Rightarrow> nat \<Rightarrow> string \<Rightarrow> rowError + StrictKeywordData" where
  "parseRow separator headers i line =
     (let vals = map cleanValue (split separator line)
      in if length vals \<noteq> length headers
         then Inl (WrongColumnCount (i + 1) (length headers) (length vals))
         else
           (let gv = getValue headers vals;
                keywordData =
                  \<lparr>appName = gv ''App Name'',
                   appId = gv ''App ID'',
                   keywordS = gv ''Keyword'',
                   store = (if toLowerCase (gv ''Store'') = ''ios'' then ''iOS'' else ''Android''),
                   device = orElse (gv ''Device'') ''all'',
                   countryCode = orElse (gv ''Country Code'') ''US'',
                   languageCode = orElse (gv ''Language Code'') ''en'',
                   mainAppId = orElse (gv ''Main App ID'') (gv ''App ID''),
                   mainAppName = orElse (gv ''Main App Name'') (gv ''App Name''),
                   keywordList = orElse (gv ''Keyword List'') (gv ''Keyword''),
                   starred = parseBoolean (gv ''Starred''),
                   volumeS = (if gv ''Volume'' \<noteq> [] then Some (parseNumber (gv ''Volume'') (Some 0) None)
                              else None),
                   difficultyS = (if gv ''Difficulty'' \<noteq> []
                                  then parseNumber (gv ''Difficulty'') (Some 0) (Some 100) else 0),
                   maximumReach = parseNumber (gv ''Maximum Reach'') (Some 0) None,
                   branded = parseBoolean (gv ''Branded''),
                   brandedAppId = orUndefined (gv ''Branded App ID''),
                   brandedAppName = orUndefined (gv ''Branded App Name''),
                   kei = parseNumber (gv ''KEI'') (Some 0) (Some 100),
                   chance = parseNumber (gv ''Chance'') (Some 0) (Some 100),
                   relevancyScore = parseNumber (gv ''Relevancy Score'') (Some 0) (Some 100)\<rparr>;
                missingRequiredFields =
                  (if appName keywordData = [] then [''App Name''] else [])
                  @ (if appId keywordData = [] then [''App ID''] else [])
                  @ (if keywordS keywordData = [] then [''Keyword''] else [])
            in if missingRequiredFields \<noteq> [] then Inl (MissingValues (i + 1) missingRequiredFields)
               else Inr keywordData))"

text \<open>
  The row loop \<open>for (let i = 1; i < nonEmptyLines.length; i++)\<close> over the lines after
  the header: the state is the pair of \<open>data\<close> and \<open>errors\<close>, both appended to.
\<close>

fun parseRows :: "char \<Rightarrow> string list \<Rightarrow> nat \<Rightarrow> string list
    \<Rightarrow> StrictKeywordData list \<times> rowError list \<Rightarrow> StrictKeywordData list \<times> rowError list" where
  "parseRows separator headers i [] (dat, errors) = (dat, errors)"
| "parseRows separator headers i (line # rest) (dat, errors) =
     (case parseRow separator headers i line of
        Inl e \<Rightarrow> parseRows separator headers (i + 1) rest (dat, errors @ [e])
      | Inr keywordData \<Rightarrow> parseRows separator headers (i + 1) rest (dat @ [keywordData], errors))"

text \<open>The end of \<open>parseCSV\<close>, after the loop.\<close>

definition finishParse :: "StrictKeywordData list \<times> rowError list \<Rightarrow> strictError + StrictKeywordData list" where
  "finishParse st =
     (case st of (dat, errors) \<Rightarrow>
        if errors \<noteq> [] then Inl (RowIssues errors)
        else if dat = [] then Inl NoValidRows
        else Inr dat)"

text \<open>
  The part of \<open>parseCSV\<close> before the loop: the checks of the file name, of the number
  of lines and of the header line. It gives the separator, the headers and the data lines.
\<close>

definition endsWith :: "string \<Rightarrow> string \<Rightarrow> bool" where
  "endsWith s suffix = (length suffix \<le> length s \<and> drop (length s - length suffix) s = suffix)"

definition nonEmptyLinesOf :: "string \<Rightarrow> string list" where
  "nonEmptyLinesOf text = filter (\<lambda>line. length (trim line) > 0) (split (CHR 0x0A) text)"

definition checkFile :: "string \<Rightarrow> string \<Rightarrow> strictError + (char \<times> string list \<times> string list)" where
  "checkFile name text =
     (if \<not> endsWith (toLowerCase name) ''.csv'' then Inl NotCsvFile
      else
        (let nonEmptyLines = nonEmptyLinesOf text
         in if length nonEmptyLines = 0 then Inl FileEmpty
            else if length nonEmptyLines < 2 then Inl NoDataRow
            else
              (let separator = detectSeparator (hd nonEmptyLines);
                   headers = map cleanHeader (split separator (hd nonEmptyLines))
               in if missingColumns headers \<noteq> [] \<or> extraColumns headers \<noteq> []
                  then Inl (HeaderIssues (missingColumns headers) (extraColumns headers))
                  else Inr (separator, headers, tl nonEmptyLines))))"

definition parseCSV :: "string \<Rightarrow> string \<Rightarrow> strictError + StrictKeywordData list" where
  "parseCSV name text =
     (case checkFile name text of
        Inl e \<Rightarrow> Inl e
      | Inr (separator, headers, dataLines) \<Rightarrow>
          finishParse (parseRows separator headers 1 dataLines ([], [])))"

text \<open>
  The outcomes of the rows, line by line (the row body at the indices the loop gives
  them), and the errors and the records among them, in order.
\<close>

fun rowOutcomes :: "char \<Rightarrow> string list \<Rightarrow> nat \<Rightarrow> string list \<Rightarrow> (rowError + StrictKeywordData) list" where
  "rowOutcomes separator headers i [] = []"
| "rowOutcomes separator headers i (line # rest) =
     parseRow separator headers i line # rowOutcomes separator headers (i + 1) rest"

fun rowErrors :: "(rowError + StrictKeywordData) list \<Rightarrow> rowError list" where
  "rowErrors [] = []"
| "rowErrors (Inl e # os) = e # rowErrors os"
| "rowErrors (Inr k # os) = rowErrors os"

fun rowRecords :: "(rowError + StrictKeywordData) list \<Rightarrow> StrictKeywordData list" where
  "rowRecords [] = []"
| "rowRecords (Inl e # os) = rowRecords os"
| "rowRecords (Inr k # os) = k # rowRecords os"

section \<open>Insight aggregation (ai-analysis-service, categorizeKeywords)\<close>

text \<open>
  \<open>s.split(/\s+/)\<close>: the pieces between the runs of white space; a string that starts
  or ends with white space gives an empty first or last piece. \<open>inWs\<close> says that the
  code unit before was white space, \<open>cur\<close> is the piece read so far.
\<close>

fun splitWsFrom :: "bool \<Rightarrow> string \<Rightarrow> string \<Rightarrow> string list" where
  "splitWsFrom inWs cur [] = [cur]"
| "splitWsFrom inWs cur (c # cs) =
     (if isWhiteSpace c then
        (if inWs then splitWsFrom True [] cs else cur # splitWsFrom True [] cs)
      else splitWsFrom False (cur @ [c]) cs)"

definition splitWs :: "string \<Rightarrow> string list" where
  "splitWs s = splitWsFrom False [] s"

text \<open>\<open>s.includes(t)\<close>, here \<open>stringIncludes s t\<close>: \<open>t\<close> occurs in \<open>s\<close> at some position.\<close>

definition stringIncludes :: "string \<Rightarrow> string \<Rightarrow> bool" where
  "stringIncludes s t = list_ex (\<lambda>i. take (length t) (drop i s) = t) [0 ..< Suc (length s)]"

text \<open>
  An object used as a dictionary is the list of its own entries in insertion order:
  \<open>obj[k] = v\<close> is \<open>AList.update k v\<close> (a new key goes to the end, a known one keeps
  its place) and \<open>obj[k]\<close> on an own key is \<open>map_of obj k\<close>. Keys that are array
  indices (which JavaScript lists first) are outside the model.
\<close>

text \<open>
  \<open>wordFrequency\<close> is a plain object, so reading a key it does not own gives what
  \<open>Object.prototype\<close> defines under that name. A token is in lower case, and the names
  \<open>Object.prototype\<close> defines in lower case are \<open>constructor\<close> and \<open>__proto__\<close>.
  For them \<open>(wordFrequency[word] || 0) + 1\<close> is a string, not a number: under
  \<open>constructor\<close> the string is stored (and made longer at every further occurrence),
  under \<open>__proto__\<close> the assignment is ignored. An entry is therefore a count or such a
  string, \<open>NotNumber\<close>, for which \<open>count >= 2\<close> is false.
\<close>

datatype frequency = Count nat | NotNumber

definition prototypeNames :: "string list" where
  "prototypeNames = [''constructor'', ''__proto__'']"

text \<open>\<open>wordFrequency[word] = (wordFrequency[word] || 0) + 1\<close> for a word of more than 3 code units.\<close>

definition countWord :: "(string \<times> frequency) list \<Rightarrow> string \<Rightarrow> (string \<times> frequency) list" where
  "countWord wordFrequency word =
     (if length word > 3 then
        (case map_of wordFrequency word of
           Some (Count n) \<Rightarrow> AList.update word (Count (n + 1)) wordFrequency
         | Some NotNumber \<Rightarrow> AList.update word NotNumber wordFrequency
         | None \<Rightarrow>
             if word = ''__proto__'' then wordFrequency
             else if word = ''constructor'' then AList.update word NotNumber wordFrequency
             else AList.update word (Count 1) wordFrequency)
      else wordFrequency)"

text \<open>The tokens of a keyword: \<open>kw.keyword.toLowerCase().split(/\s+/)\<close>.\<close>

definition tokensOf :: "KeywordData \<Rightarrow> string list" where
  "tokensOf kw = splitWs (toLowerCase (keyword kw))"

definition wordFrequencyOf :: "KeywordData list \<Rightarrow> (string \<times> frequency) list" where
  "wordFrequencyOf kws =
     foldl (\<lambda>wordFrequency kw. foldl countWord wordFrequency (tokensOf kw)) [] kws"

text \<open>\<open>Object.entries(wordFrequency).filter(([_, count]) => count >= 2).map(([word]) => word)\<close>\<close>

definition atLeastTwo :: "frequency \<Rightarrow> bool" where
  "atLeastTwo count = (case count of Count n \<Rightarrow> n \<ge> 2 | NotNumber \<Rightarrow> False)"

definition commonThemes :: "KeywordData list \<Rightarrow> string list" where
  "commonThemes kws = map fst (filter (\<lambda>(word, count). atLeastTwo count) (wordFrequencyOf kws))"

text \<open>The members of a theme: \<open>keywords.filter(kw => kw.keyword.toLowerCase().includes(theme.toLowerCase()))\<close>.\<close>

definition themeMembers :: "KeywordData list \<Rightarrow> string \<Rightarrow> KeywordData list" where
  "themeMembers kws theme =
     filter (\<lambda>kw. stringIncludes (toLowerCase (keyword kw)) (toLowerCase theme)) kws"

definition themeCategories :: "KeywordData list \<Rightarrow> (string \<times> KeywordData list) list" where
  "themeCategories kws =
     foldl (\<lambda>categories theme. AList.update theme (themeMembers kws theme) categories)
       [] (commonThemes kws)"

text \<open>The set \<open>categorizedKeywords\<close>, as the list of the keyword strings added to it.\<close>

definition categorizedKeywords :: "(string \<times> KeywordData list) list \<Rightarrow> string list" where
  "categorizedKeywords categories = concat (map (\<lambda>(category, kws). map keyword kws) categories)"

definition otherKeywords :: "KeywordData list \<Rightarrow> KeywordData list" where
  "otherKeywords kws =
     filter (\<lambda>kw. keyword kw \<notin> set (categorizedKeywords (themeCategories kws))) kws"

definition categorizeKeywords :: "KeywordData list \<Rightarrow> (string \<times> KeywordData list) list" where
  "categorizeKeywords kws =
     (let categories = AList.update ''other'' (otherKeywords kws) (themeCategories kws)
      in filter (\<lambda>(category, members). \<not> length members < 2) categories)"

section \<open>Insight aggregation (ai-analysis-service, generateKeywordInsights)\<close>

subsection \<open>Arithmetic on the numbers of a record\<close>

text \<open>
  The operations of JavaScript on \<open>number\<close>: finite values follow real arithmetic,
  the infinities and NaN follow IEEE 754. \<open>numLess a b\<close> is \<open>a < b\<close>.
\<close>

fun numLess :: "number \<Rightarrow> number \<Rightarrow> bool" where
  "numLess NaN b = False"
| "numLess a NaN = False"
| "numLess (Finite x) (Finite y) = (x < y)"
| "numLess (Finite x) PosInfinity = True"
| "numLess (Finite x) NegInfinity = False"
| "numLess PosInfinity b = False"
| "numLess NegInfinity NegInfinity = False"
| "numLess NegInfinity b = True"

fun numAdd :: "number \<Rightarrow> number \<Rightarrow> number" where
  "numAdd NaN b = NaN"
| "numAdd a NaN = NaN"
| "numAdd (Finite x) (Finite y) = Finite (x + y)"
| "numAdd (Finite x) b = b"
| "numAdd a (Finite y) = a"
| "numAdd PosInfinity PosInfinity = PosInfinity"
| "numAdd NegInfinity NegInfinity = NegInfinity"
| "numAdd PosInfinity NegInfinity = NaN"
| "numAdd NegInfinity PosInfinity = NaN"

definition numSub :: "number \<Rightarrow> number \<Rightarrow> number" where
  "numSub a b = numAdd a (negate b)"

text \<open>Division by a count that is at least 1.\<close>

definition numDivCount :: "number \<Rightarrow> nat \<Rightarrow> number" where
  "numDivCount a n = (case a of Finite x \<Rightarrow> Finite (x / real n) | other \<Rightarrow> other)"

text \<open>\<open>Math.round\<close>: the integer nearest to the number, a half rounded up.\<close>

definition numRound :: "number \<Rightarrow> number" where
  "numRound a = (case a of Finite x \<Rightarrow> Finite (real_of_int \<lfloor>x + 1 / 2\<rfloor>) | other \<Rightarrow> other)"

text \<open>\<open>x || 0\<close> for a field that may be absent: absent, 0 and NaN give 0.\<close>

definition orZero :: "number option \<Rightarrow> number" where
  "orZero v =
     (case v of
        None \<Rightarrow> Finite 0
      | Some n \<Rightarrow> if n = NaN \<or> n = Finite 0 then Finite 0 else n)"

text \<open>
  The decimal digits of a natural number, and the string of a number that
  \<open>Math.round\<close> returned (an integer in plain decimal digits: the exponent notation
  JavaScript uses from 22 digits on is outside the model).
\<close>

fun showNat :: "nat \<Rightarrow> string" where
  "showNat n = (if n < 10 then [''0123456789'' ! n] else showNat (n div 10) @ [''0123456789'' ! (n mod 10)])"

definition showNumber :: "number \<Rightarrow> string" where
  "showNumber a =
     (case a of
        Finite x \<Rightarrow> (if x < 0 then ''-'' @ showNat (nat \<lfloor>- x\<rfloor>) else showNat (nat \<lfloor>x\<rfloor>))
      | PosInfinity \<Rightarrow> ''Infinity''
      | NegInfinity \<Rightarrow> ''-Infinity''
      | NaN \<Rightarrow> ''NaN'')"

subsection \<open>Arrays in a store\<close>

text \<open>
  \<open>Array.prototype.sort\<close> sorts its array in place, so the arrays of keyword records
  live in a store: an array is its address, the store is the list of the arrays'
  contents. \<open>filter\<close> and \<open>slice\<close> allocate a new array, \<open>sort\<close> overwrites the array
  it is called on and returns its address. The records themselves are never written to
  by the aggregation, so an array holds them as values.
\<close>

type_synonym store = "KeywordData list list"

definition alloc :: "KeywordData list \<Rightarrow> store \<Rightarrow> nat \<times> store" where
  "alloc xs h = (length h, h @ [xs])"

definition arrayFilter :: "(KeywordData \<Rightarrow> bool) \<Rightarrow> nat \<Rightarrow> store \<Rightarrow> nat \<times> store" where
  "arrayFilter p a h = alloc (filter p (h ! a)) h"

definition arraySlice :: "nat \<Rightarrow> nat \<Rightarrow> nat \<Rightarrow> store \<Rightarrow> nat \<times> store" where
  "arraySlice i j a h = alloc (take (j - i) (drop i (h ! a))) h"

text \<open>
  The sort is stable: \<open>precedes x y\<close> says that the comparator puts \<open>x\<close> strictly before
  \<open>y\<close> (its value on \<open>(x, y)\<close> is negative), and an element is moved in front of the
  elements it is not strictly after. For a comparator that is not a consistent order
  (here: two infinite volumes) the order JavaScript gives is left to the engine.
\<close>

fun insertBy :: "('a \<Rightarrow> 'a \<Rightarrow> bool) \<Rightarrow> 'a \<Rightarrow> 'a list \<Rightarrow> 'a list" where
  "insertBy precedes x [] = [x]"
| "insertBy precedes x (y # ys) = (if precedes y x then y # insertBy precedes x ys else x # y # ys)"

definition sortBy :: "('a \<Rightarrow> 'a \<Rightarrow> bool) \<Rightarrow> 'a list \<Rightarrow> 'a list" where
  "sortBy precedes xs = foldr (insertBy precedes) xs []"

definition arraySort :: "(KeywordData \<Rightarrow> KeywordData \<Rightarrow> bool) \<Rightarrow> nat \<Rightarrow> store \<Rightarrow> nat \<times> store" where
  "arraySort precedes a h = (a, h[a := sortBy precedes (h ! a)])"

subsection \<open>The insights\<close>

text \<open>
  \<open>k.volume\<close>, \<open>k.difficulty\<close> and \<open>k.currentRank\<close>: the number stored under the
  name, \<open>None\<close> for \<open>undefined\<close>. The parser stores numbers only under these names.
\<close>

definition numberProp :: "string \<Rightarrow> KeywordData \<Rightarrow> number option" where
  "numberProp name k = (case map_of (props k) name of Some (NumV n) \<Rightarrow> Some n | _ \<Rightarrow> None)"

text \<open>\<open>(a, b) => (b.volume || 0) - (a.volume || 0)\<close> is negative.\<close>

definition byVolumeDesc :: "KeywordData \<Rightarrow> KeywordData \<Rightarrow> bool" where
  "byVolumeDesc a b =
     numLess (numSub (orZero (numberProp ''volume'' b)) (orZero (numberProp ''volume'' a))) (Finite 0)"

text \<open>\<open>x !== undefined && x > c\<close> and \<open>x !== undefined && x < c\<close>.\<close>

definition definedAbove :: "number option \<Rightarrow> real \<Rightarrow> bool" where
  "definedAbove v c = (case v of None \<Rightarrow> False | Some n \<Rightarrow> numLess (Finite c) n)"

definition definedBelow :: "number option \<Rightarrow> real \<Rightarrow> bool" where
  "definedBelow v c = (case v of None \<Rightarrow> False | Some n \<Rightarrow> numLess n (Finite c))"

text \<open>The chain \<open>keywords.filter(p).sort(byVolume).slice(0, 5)\<close>: the address of the result.\<close>

definition topFive :: "(KeywordData \<Rightarrow> bool) \<Rightarrow> nat \<Rightarrow> store \<Rightarrow> nat \<times> store" where
  "topFive p kwsAddr h =
     (case arrayFilter p kwsAddr h of
        (filteredAddr, h1) \<Rightarrow>
          (case arraySort byVolumeDesc filteredAddr h1 of
             (sortedAddr, h2) \<Rightarrow> arraySlice 0 5 sortedAddr h2))"

text \<open>\<open>s.replace(/\s+/g, ' ')\<close>: every run of white space becomes one space.\<close>

fun collapseWsFrom :: "bool \<Rightarrow> string \<Rightarrow> string" where
  "collapseWsFrom inWs [] = []"
| "collapseWsFrom inWs (c # cs) =
     (if isWhiteSpace c then
        (if inWs then collapseWsFrom True cs else CHR '' '' # collapseWsFrom True cs)
      else c # collapseWsFrom False cs)"

definition collapseWs :: "string \<Rightarrow> string" where
  "collapseWs s = collapseWsFrom False s"

text \<open>\<open>xs.join(sep)\<close>\<close>

fun joinWith :: "string \<Rightarrow> string list \<Rightarrow> string" where
  "joinWith sep [] = []"
| "joinWith sep [x] = x"
| "joinWith sep (x # y # ys) = x @ sep @ joinWith sep (y # ys)"

definition quoted :: "KeywordData \<Rightarrow> string" where
  "quoted k = [CHR 0x22] @ keyword k @ [CHR 0x22]"

text \<open>\<open>appData.appDetails.appName || 'Your app'\<close>\<close>

definition appNameOrDefault :: "(string \<times> fieldValue) list \<Rightarrow> string" where
  "appNameOrDefault details =
     (case map_of details ''appName'' of
        Some (StrV s) \<Rightarrow> if s \<noteq> [] then s else ''Your app''
      | _ \<Rightarrow> ''Your app'')"

definition average :: "string \<Rightarrow> KeywordData list \<Rightarrow> number" where
  "average name kws =
     (let total = foldl (\<lambda>sum k. numAdd sum (orZero (numberProp name k))) (Finite 0) kws;
          n = length (filter (\<lambda>k. numberProp name k \<noteq> None) kws)
      in numDivCount total (if n = 0 then 1 else n))"

definition generateInsightsSummary ::
    "(string \<times> fieldValue) list \<Rightarrow> KeywordData list \<Rightarrow> KeywordData list \<Rightarrow> KeywordData list \<Rightarrow> string" where
  "generateInsightsSummary details kws lowCompetitionOpportunities underperformingKeywords =
     (let appName = appNameOrDefault details;
          totalKeywords = length kws;
          avgVolume = average ''volume'' kws;
          avgDifficulty = average ''difficulty'' kws;
          topOpportunities =
            (if length lowCompetitionOpportunities > 0
             then ''Your top keyword opportunities are: ''
                  @ joinWith '', '' (map quoted (take 3 lowCompetitionOpportunities)) @ ''.''
             else []);
          underperforming =
            (if length underperformingKeywords > 0
             then ''You should focus on improving your ranking for: ''
                  @ joinWith '', '' (map quoted (take 3 underperformingKeywords)) @ ''.''
             else []);
          nl = [CHR 0x0A] @ ''    ''
      in collapseWs (trim
           (nl @ ''We analyzed '' @ showNat totalKeywords @ '' keywords for '' @ appName @ ''. ''
            @ nl @ ''The average search volume is '' @ showNumber (numRound avgVolume)
            @ '' with an average difficulty of '' @ showNumber (numRound avgDifficulty) @ ''/100.''
            @ nl @ topOpportunities
            @ nl @ underperforming
            @ nl @ ''By optimizing your metadata with our recommendations, you can improve visibility and increase downloads.''
            @ [CHR 0x0A] @ ''  '')))"

text \<open>
  The result of \<open>generateKeywordInsights\<close>, with the contents of its arrays as they
  are when it returns.
\<close>

record KeywordInsights =
  trendingKeywords :: "KeywordData list"
  lowCompetitionOpportunities :: "KeywordData list"
  highVolumeKeywords :: "KeywordData list"
  underperformingKeywords :: "KeywordData list"
  keywordCategories :: "(string \<times> KeywordData list) list"
  summary :: string

text \<open>The four filters of \<open>generateKeywordInsights\<close>.\<close>

definition isTrending :: "KeywordData \<Rightarrow> bool" where
  "isTrending k = definedAbove (numberProp ''volume'' k) 500"

definition isLowCompetition :: "KeywordData \<Rightarrow> bool" where
  "isLowCompetition k =
     (numberProp ''difficulty'' k \<noteq> None \<and> numberProp ''volume'' k \<noteq> None
      \<and> definedBelow (numberProp ''difficulty'' k) 40
      \<and> definedAbove (numberProp ''volume'' k) 300)"

definition hasVolume :: "KeywordData \<Rightarrow> bool" where
  "hasVolume k = (numberProp ''volume'' k \<noteq> None)"

definition isUnderperforming :: "KeywordData \<Rightarrow> bool" where
  "isUnderperforming k =
     (numberProp ''volume'' k \<noteq> None \<and> numberProp ''currentRank'' k \<noteq> None
      \<and> definedAbove (numberProp ''volume'' k) 300
      \<and> definedAbove (numberProp ''currentRank'' k) 50)"

text \<open>
  \<open>generateKeywordInsights\<close> on the app details and the address of the array
  \<open>appData.keywords\<close>: the insights and the store it leaves.
\<close>

definition generateKeywordInsights ::
    "(string \<times> fieldValue) list \<Rightarrow> nat \<Rightarrow> store \<Rightarrow> KeywordInsights \<times> store" where
  "generateKeywordInsights details kwsAddr h =
     (let categories = categorizeKeywords (h ! kwsAddr)
      in case topFive isTrending kwsAddr h of
        (trending, h1) \<Rightarrow>
      (case topFive isLowCompetition kwsAddr h1 of
        (lowCompetition, h2) \<Rightarrow>
      (case topFive hasVolume kwsAddr h2 of
        (highVolume, h3) \<Rightarrow>
      (case topFive isUnderperforming kwsAddr h3 of
        (underperformers, h4) \<Rightarrow>
          (\<lparr>trendingKeywords = h4 ! trending,
            lowCompetitionOpportunities = h4 ! lowCompetition,
            highVolumeKeywords = h4 ! highVolume,
            underperformingKeywords = h4 ! underperformers,
            keywordCategories = categories,
            summary = generateInsightsSummary details (h4 ! kwsAddr)
                        (h4 ! lowCompetition) (h4 ! underperformers)\<rparr>,
           h4)))))"

section \<open>Prediction service (csv-parser.ts, generatePredictions)\<close>











chapter \<open>Properties\<close>

subsection \<open>Projection engine\<close>

lemma rankFactor_nonneg: "1 \<le> r \<Longrightarrow> 0 \<le> rankFactor r"
  by (simp add: rankFactor_def)

lemma difficultyFactor_nonneg: "d \<le> 100 \<Longrightarrow> 0 \<le> difficultyFactor d"
  by (simp add: difficultyFactor_def)

lemma improvement_nonneg:
  assumes "1 \<le> r" and "d \<le> 100" and "0 \<le> m"
  shows "0 \<le> improvement r d m"
proof -
  have "0 \<le> rankFactor r * difficultyFactor d"
    using rankFactor_nonneg [OF assms(1)] difficultyFactor_nonneg [OF assms(2)] by simp
  moreover have "0 \<le> sqrt m" using assms(3) by simp
  ultimately show ?thesis unfolding improvement_def by simp
qed

lemma sqrt6_lower: "2.449 < sqrt 6"
  by (rule real_less_rsqrt) (simp add: power2_eq_square)

lemma sqrt6_upper: "sqrt 6 < 2.45"
  by (rule real_less_lsqrt) (simp_all add: power2_eq_square)

lemma log60_lower: "1.776 < log 10 60"
proof -
  have "(10::real) ^ 222 < 60 ^ 125" by simp
  then have "log 10 (10 ^ 222) < log 10 ((60::real) ^ 125)"
    by (subst log_less_cancel_iff) simp_all
  moreover have "log 10 ((10::real) ^ 222) = 222 * log 10 10"
    by (subst log_nat_power) simp_all
  moreover have "log 10 ((60::real) ^ 125) = 125 * log 10 60"
    by (subst log_nat_power) simp_all
  ultimately have "222 < 125 * log 10 60"
    by (simp only: log_eq_one)
  then show ?thesis by simp
qed

lemma log60_upper: "log 10 60 < 1.78"
proof -
  have "(60::real) ^ 50 < 10 ^ 89" by simp
  then have "log 10 ((60::real) ^ 50) < log 10 (10 ^ 89)"
    by (subst log_less_cancel_iff) simp_all
  moreover have "log 10 ((10::real) ^ 89) = 89 * log 10 10"
    by (subst log_nat_power) simp_all
  moreover have "log 10 ((60::real) ^ 50) = 50 * log 10 60"
    by (subst log_nat_power) simp_all
  ultimately have "50 * log 10 60 < 89"
    by (simp only: log_eq_one)
  then show ?thesis by simp
qed

lemma rankFactor_50: "rankFactor 50 = log 10 60 / 2"
  using log60_upper by (simp add: rankFactor_def)

lemma rankFactor_50_bounds: "0.888 < rankFactor 50 \<and> rankFactor 50 < 0.89"
  using log60_lower log60_upper by (simp add: rankFactor_50)

lemma improvement_50_30_6: "improvement 50 30 6 = rankFactor 50 * sqrt 6 * 17"
  by (simp add: improvement_def difficultyFactor_def)

lemma improvement_50_30_6_bounds:
  "36.9 < improvement 50 30 6 \<and> improvement 50 30 6 < 37.1"
proof -
  have lo: "0.888 * 2.449 < rankFactor 50 * sqrt 6"
    using rankFactor_50_bounds sqrt6_lower
    by (intro mult_strict_mono) simp_all
  have hi: "rankFactor 50 * sqrt 6 < 0.89 * 2.45"
    using rankFactor_50_bounds sqrt6_upper
    by (intro mult_strict_mono) simp_all
  show ?thesis
    using lo hi by (simp add: improvement_50_30_6)
qed

text \<open>
  Claim C3. For every current rank of at least 1, every difficulty between 0 and 100
  and every positive number of months, the projected rank of the rank-improvement
  model lies between 1 and the current rank: the projection never goes below rank 1
  and never worsens the rank. This holds for the function of the analysis service and
  for the metadata-boost variant of the dashboard page.
\<close>

theorem projectedRank_bounds:
  assumes "1 \<le> currentRank" and "0 \<le> difficulty" and "difficulty \<le> 100" and "0 < months"
  shows "1 \<le> projectedRank currentRank difficulty months
       \<and> projectedRank currentRank difficulty months \<le> currentRank
       \<and> 1 \<le> projectedRankBoost currentRank difficulty months
       \<and> projectedRankBoost currentRank difficulty months \<le> currentRank"
proof -
  have imp: "0 \<le> improvement currentRank difficulty months"
    using assms by (intro improvement_nonneg) simp_all
  have est: "0 \<le> estimateRankImprovement currentRank difficulty months"
    using imp assms(1) by (simp add: estimateRankImprovement_def)
  have "0 \<le> improvement currentRank difficulty months * metadataBoostFactor"
    using imp by (simp add: metadataBoostFactor_def)
  then have boost: "0 \<le> estimateRankImprovementBoost currentRank difficulty months"
    using assms(1) by (simp add: estimateRankImprovementBoost_def improvement_def)
  have cap: "estimateRankImprovement currentRank difficulty months \<le> currentRank - 1"
    by (simp add: estimateRankImprovement_def)
  have capb: "estimateRankImprovementBoost currentRank difficulty months \<le> currentRank - 1"
    by (simp add: estimateRankImprovementBoost_def)
  show ?thesis
    using est boost cap capb assms(1)
    by (simp add: projectedRank_def projectedRankBoost_def)
qed

theorem projectedRank_bounds_witness:
  "(1::real) \<le> 50 \<and> (0::real) \<le> 30 \<and> (30::real) \<le> 100 \<and> (0::real) < 6
   \<and> 1 \<le> projectedRank 50 30 6 \<and> projectedRank 50 30 6 \<le> 50
   \<and> 1 \<le> projectedRankBoost 50 30 6 \<and> projectedRankBoost 50 30 6 \<le> 50"
  using projectedRank_bounds [of 50 30 6] by simp

text \<open>
  Claim C5. The install-conversion rate is the fixed step function of the rank:
  at most 1 gives 0.12, at most 3 gives 0.08, at most 5 gives 0.05, at most 10 gives
  0.03, at most 20 gives 0.01, at most 50 gives 0.005 and any larger rank gives 0.001.
  In particular the rate is 0.12 at rank 1, 0.03 at rank 7 and 0.001 at rank 75, and
  the monthly installs of a keyword are its volume times the rate at its projected
  rank times 30.
\<close>

theorem estimateConversionRate_table:
  "estimateConversionRate rank =
     (if rank \<le> 1 then 0.12 else if rank \<le> 3 then 0.08 else if rank \<le> 5 then 0.05
      else if rank \<le> 10 then 0.03 else if rank \<le> 20 then 0.01
      else if rank \<le> 50 then 0.005 else 0.001)
   \<and> estimateConversionRate 1 = 0.12
   \<and> estimateConversionRate 7 = 0.03
   \<and> estimateConversionRate 75 = 0.001
   \<and> monthlyDownloads volume currentRank difficulty months =
       volume * estimateConversionRate (projectedRank currentRank difficulty months) * 30"
  by (simp add: estimateConversionRate_def monthlyDownloads_def)

text \<open>
  Claim C9. With current rank 50, difficulty 30 and 6 months (no metadata boost):
  the difficulty factor is 1 - 30/200 = 0.85, the rank factor is
  min (log10 60 / 2) 1 = log10 60 / 2, between 0.888 and 0.89, the improvement
  is the product of the rank factor, the difficulty factor, the square root of 6 and
  20, between 36.9 and 37.1, the cap of current rank - 1 = 49 does not bind, and
  the projected rank is 50 minus the improvement, between 12.9 and 13.1.
\<close>

theorem rank_improvement_scenario:
  "difficultyFactor 30 = 0.85
   \<and> rankFactor 50 = log 10 60 / 2
   \<and> 0.888 < rankFactor 50 \<and> rankFactor 50 < 0.89
   \<and> improvement 50 30 6 = rankFactor 50 * difficultyFactor 30 * sqrt 6 * 20
   \<and> 36.9 < improvement 50 30 6 \<and> improvement 50 30 6 < 37.1
   \<and> improvement 50 30 6 < 50 - 1
   \<and> estimateRankImprovement 50 30 6 = improvement 50 30 6
   \<and> projectedRank 50 30 6 = 50 - improvement 50 30 6
   \<and> 12.9 < projectedRank 50 30 6 \<and> projectedRank 50 30 6 < 13.1"
proof -
  have d: "difficultyFactor 30 = 0.85"
    by (simp add: difficultyFactor_def)
  have r: "0.888 < rankFactor 50" "rankFactor 50 < 0.89"
    using rankFactor_50_bounds by simp_all
  have i: "improvement 50 30 6 = rankFactor 50 * difficultyFactor 30 * sqrt 6 * 20"
    by (simp only: improvement_def)
  have b: "36.9 < improvement 50 30 6" "improvement 50 30 6 < 37.1"
    using improvement_50_30_6_bounds by simp_all
  have c: "improvement 50 30 6 < 50 - 1"
    using b(2) by simp
  have e: "estimateRankImprovement 50 30 6 = improvement 50 30 6"
    using b by (simp add: estimateRankImprovement_def)
  have p: "projectedRank 50 30 6 = 50 - improvement 50 30 6"
    using b by (simp add: projectedRank_def e)
  have q: "12.9 < projectedRank 50 30 6" "projectedRank 50 30 6 < 13.1"
    using b by (simp_all add: p)
  show ?thesis
    using d rankFactor_50 r i b c e p q by blast
qed

subsection \<open>Runtime functions\<close>

text \<open>
  A code equation for \<open>toLowerChar\<close> on the bits of the code unit, for evaluation on
  concrete strings: the letters A to Z are the code units 0x41 to 0x5A, and setting bit
  5 gives the lower-case letter.
\<close>

lemma toLowerChar_bits [code]:
  "toLowerChar (Char b0 b1 b2 b3 b4 b5 b6 b7) =
     (if \<not> b7 \<and> b6 \<and> \<not> b5 \<and> (b0 \<or> b1 \<or> b2 \<or> b3 \<or> b4) \<and> \<not> (b4 \<and> b3 \<and> (b2 \<or> (b1 \<and> b0)))
      then Char b0 b1 b2 b3 b4 True b6 b7
      else Char b0 b1 b2 b3 b4 b5 b6 b7)"
  by (cases b0; cases b1; cases b2; cases b3; cases b4; cases b5; cases b6; cases b7;
      simp add: toLowerChar_def)

subsection \<open>Flexible parser\<close>

lemma processRows_acc:
  "processRows kf seen acc rows = acc @ processRows kf seen [] rows"
proof (induction rows arbitrary: seen acc)
  case Nil
  then show ?case by simp
next
  case (Cons r rows)
  show ?case
  proof (cases "\<exists>kw. map_of r kf = Some kw \<and> kw \<noteq> [] \<and> kw \<notin> set seen")
    case False
    then have "processRows kf seen acc (r # rows) = processRows kf seen acc rows"
      and "processRows kf seen [] (r # rows) = processRows kf seen [] rows"
      by (auto split: option.splits)
    then show ?thesis using Cons.IH [of seen acc] by (simp only:)
  next
    case True
    then obtain kw where kw: "map_of r kf = Some kw" "kw \<noteq> []" "kw \<notin> set seen" by blast
    have "processRows kf seen acc (r # rows)
            = processRows kf (kw # seen) (acc @ [buildKeywordData r kw]) rows"
      using kw by simp
    also have "\<dots> = (acc @ [buildKeywordData r kw]) @ processRows kf (kw # seen) [] rows"
      by (rule Cons.IH)
    also have "\<dots> = acc @ ([buildKeywordData r kw] @ processRows kf (kw # seen) [] rows)"
      by simp
    also have "[buildKeywordData r kw] @ processRows kf (kw # seen) [] rows
                 = processRows kf (kw # seen) [buildKeywordData r kw] rows"
      by (rule Cons.IH [symmetric])
    also have "processRows kf (kw # seen) [buildKeywordData r kw] rows
                 = processRows kf seen [] (r # rows)"
      using kw by simp
    finally show ?thesis .
  qed
qed

lemma processRows_skip:
  "\<not> (\<exists>kw. map_of r kf = Some kw \<and> kw \<noteq> [] \<and> kw \<notin> set seen) \<Longrightarrow>
     processRows kf seen [] (r # rows) = processRows kf seen [] rows"
  by (auto split: option.splits)

lemma processRows_keep:
  assumes "map_of r kf = Some kw" and "kw \<noteq> []" and "kw \<notin> set seen"
  shows "processRows kf seen [] (r # rows)
           = buildKeywordData r kw # processRows kf (kw # seen) [] rows"
proof -
  have "processRows kf seen [] (r # rows) = processRows kf (kw # seen) [buildKeywordData r kw] rows"
    using assms by simp
  also have "\<dots> = [buildKeywordData r kw] @ processRows kf (kw # seen) [] rows"
    by (rule processRows_acc)
  finally show ?thesis by simp
qed

lemma keyword_buildKeywordData: "keyword (buildKeywordData r kw) = kw"
  by (simp add: buildKeywordData_def)

lemma processRows_origin:
  "k \<in> set (processRows kf seen [] rows) \<Longrightarrow>
     \<exists>pre r post. rows = pre @ r # post \<and> map_of r kf = Some (keyword k)
        \<and> keyword k \<noteq> [] \<and> keyword k \<notin> set seen
        \<and> (\<forall>r' \<in> set pre. map_of r' kf \<noteq> Some (keyword k))
        \<and> k = buildKeywordData r (keyword k)"
proof (induction rows arbitrary: seen)
  case Nil
  then show ?case by simp
next
  case (Cons r rows)
  let ?new = "\<exists>kw. map_of r kf = Some kw \<and> kw \<noteq> [] \<and> kw \<notin> set seen"
  show ?case
  proof (cases ?new)
    case False
    then have "processRows kf seen [] (r # rows) = processRows kf seen [] rows"
      by (rule processRows_skip)
    with Cons.prems have "k \<in> set (processRows kf seen [] rows)" by simp
    from Cons.IH [OF this] obtain pre r0 post where
      h: "rows = pre @ r0 # post" "map_of r0 kf = Some (keyword k)" "keyword k \<noteq> []"
         "keyword k \<notin> set seen" "\<forall>r' \<in> set pre. map_of r' kf \<noteq> Some (keyword k)"
         "k = buildKeywordData r0 (keyword k)"
      by blast
    have "map_of r kf \<noteq> Some (keyword k)" using False h(3,4) by auto
    then have "\<forall>r' \<in> set (r # pre). map_of r' kf \<noteq> Some (keyword k)" using h(5) by simp
    moreover have "r # rows = (r # pre) @ r0 # post" using h(1) by simp
    ultimately show ?thesis using h(2,3,4,6) by blast
  next
    case True
    then obtain kw where kw: "map_of r kf = Some kw" "kw \<noteq> []" "kw \<notin> set seen" by blast
    then have eq: "processRows kf seen [] (r # rows)
                   = buildKeywordData r kw # processRows kf (kw # seen) [] rows"
      by (rule processRows_keep)
    show ?thesis
    proof (cases "k = buildKeywordData r kw")
      case True
      then have "keyword k = kw" by (simp add: keyword_buildKeywordData)
      then have "r # rows = [] @ r # rows \<and> map_of r kf = Some (keyword k) \<and> keyword k \<noteq> []
          \<and> keyword k \<notin> set seen \<and> (\<forall>r' \<in> set []. map_of r' kf \<noteq> Some (keyword k))
          \<and> k = buildKeywordData r (keyword k)"
        using kw True by simp
      then show ?thesis by blast
    next
      case False
      with Cons.prems eq have "k \<in> set (processRows kf (kw # seen) [] rows)" by simp
      from Cons.IH [OF this] obtain pre r0 post where
        h: "rows = pre @ r0 # post" "map_of r0 kf = Some (keyword k)" "keyword k \<noteq> []"
           "keyword k \<notin> set (kw # seen)" "\<forall>r' \<in> set pre. map_of r' kf \<noteq> Some (keyword k)"
           "k = buildKeywordData r0 (keyword k)"
        by blast
      have "map_of r kf \<noteq> Some (keyword k)" using kw(1) h(4) by auto
      then have "\<forall>r' \<in> set (r # pre). map_of r' kf \<noteq> Some (keyword k)" using h(5) by simp
      moreover have "r # rows = (r # pre) @ r0 # post" using h(1) by simp
      moreover have "keyword k \<notin> set seen" using h(4) by simp
      ultimately show ?thesis using h(2,3,6) by blast
    qed
  qed
qed

lemma processRows_distinct:
  "distinct (map keyword (processRows kf seen [] rows))"
proof (induction rows arbitrary: seen)
  case Nil
  then show ?case by simp
next
  case (Cons r rows)
  show ?case
  proof (cases "\<exists>kw. map_of r kf = Some kw \<and> kw \<noteq> [] \<and> kw \<notin> set seen")
    case False
    then have "processRows kf seen [] (r # rows) = processRows kf seen [] rows"
      by (rule processRows_skip)
    then show ?thesis using Cons.IH by simp
  next
    case True
    then obtain kw where kw: "map_of r kf = Some kw" "kw \<noteq> []" "kw \<notin> set seen" by blast
    then have eq: "processRows kf seen [] (r # rows)
                   = buildKeywordData r kw # processRows kf (kw # seen) [] rows"
      by (rule processRows_keep)
    have "kw \<notin> keyword ` set (processRows kf (kw # seen) [] rows)"
    proof
      assume "kw \<in> keyword ` set (processRows kf (kw # seen) [] rows)"
      then obtain k where k: "k \<in> set (processRows kf (kw # seen) [] rows)" "keyword k = kw"
        by auto
      from processRows_origin [OF k(1)] have "keyword k \<notin> set (kw # seen)" by blast
      with k(2) show False by simp
    qed
    then show ?thesis using eq Cons.IH by (simp add: keyword_buildKeywordData)
  qed
qed

lemma processRows_complete:
  "r \<in> set rows \<Longrightarrow> map_of r kf = Some kw \<Longrightarrow> kw \<noteq> [] \<Longrightarrow> kw \<notin> set seen \<Longrightarrow>
     kw \<in> keyword ` set (processRows kf seen [] rows)"
proof (induction rows arbitrary: seen)
  case Nil
  then show ?case by simp
next
  case (Cons r0 rows)
  show ?case
  proof (cases "\<exists>kw0. map_of r0 kf = Some kw0 \<and> kw0 \<noteq> [] \<and> kw0 \<notin> set seen")
    case False
    then have eq: "processRows kf seen [] (r0 # rows) = processRows kf seen [] rows"
      by (rule processRows_skip)
    have "r \<noteq> r0" using False Cons.prems by auto
    then have "r \<in> set rows" using Cons.prems(1) by simp
    from Cons.IH [OF this Cons.prems(2,3,4)] show ?thesis using eq by simp
  next
    case True
    then obtain kw0 where kw0: "map_of r0 kf = Some kw0" "kw0 \<noteq> []" "kw0 \<notin> set seen" by blast
    then have eq: "processRows kf seen [] (r0 # rows)
                   = buildKeywordData r0 kw0 # processRows kf (kw0 # seen) [] rows"
      by (rule processRows_keep)
    show ?thesis
    proof (cases "kw = kw0")
      case True
      then show ?thesis using eq by (simp add: keyword_buildKeywordData)
    next
      case False
      then have "r \<noteq> r0" using kw0(1) Cons.prems(2) by auto
      then have "r \<in> set rows" using Cons.prems(1) by simp
      moreover have "kw \<notin> set (kw0 # seen)" using False Cons.prems(4) by simp
      ultimately have "kw \<in> keyword ` set (processRows kf (kw0 # seen) [] rows)"
        using Cons.IH Cons.prems(2,3) by blast
      then show ?thesis using eq by simp
    qed
  qed
qed


lemma numeric_not_app:
  "f \<in> set numericFields \<Longrightarrow> f \<notin> set appFields \<and> f \<noteq> ''keyword''"
  by (auto simp: numericFields_def appFields_def)

lemma processField_step:
  assumes "map_of r field = Some cell" and "f \<in> set numericFields"
  shows "map_of (processField r acc field) f
           = (if standardField field = f \<and> cell \<noteq> [] then Some (NumV (parseNumericValue cell))
              else map_of acc f)"
proof (cases "standardField field = f")
  case True
  then show ?thesis
    using assms numeric_not_app [OF assms(2)]
    by (simp add: processField_def Let_def update_conv')
next
  case False
  then show ?thesis
    using assms(1) by (auto simp: processField_def Let_def update_conv')
qed

lemma foldl_processField_cells:
  assumes "distinct (map fst r)" and "f \<in> set numericFields" and "set cells \<subseteq> set r"
  shows "map_of (foldl (processField r) [] (map fst cells)) f
           = (if filter (\<lambda>(field, cell). standardField field = f \<and> cell \<noteq> []) cells = [] then None
              else Some (NumV (parseNumericValue (snd (last
                     (filter (\<lambda>(field, cell). standardField field = f \<and> cell \<noteq> []) cells))))))"
  using assms(3)
proof (induction cells rule: rev_induct)
  case Nil
  then show ?case by simp
next
  case (snoc p cells)
  obtain field cell where p: "p = (field, cell)" by (cases p)
  then have "(field, cell) \<in> set r" using snoc.prems by simp
  then have m: "map_of r field = Some cell"
    using assms(1) by (simp add: map_of_is_SomeI)
  have sub: "set cells \<subseteq> set r" using snoc.prems by simp
  show ?case
  proof (cases "standardField field = f \<and> cell \<noteq> []")
    case True
    then show ?thesis
      using p processField_step [OF m assms(2)]
      by simp
  next
    case False
    then have "filter (\<lambda>(field, cell). standardField field = f \<and> cell \<noteq> []) (cells @ [p])
                 = filter (\<lambda>(field, cell). standardField field = f \<and> cell \<noteq> []) cells"
      using p by auto
    moreover have "map_of (foldl (processField r) [] (map fst (cells @ [p]))) f
                     = map_of (foldl (processField r) [] (map fst cells)) f"
      using False p processField_step [OF m assms(2)] by auto
    ultimately show ?thesis using snoc.IH [OF sub] by simp
  qed
qed

lemma buildKeywordData_field:
  assumes "distinct (map fst r)" and "f \<in> set numericFields"
  shows "map_of (props (buildKeywordData r kw)) f
           = (if filter (\<lambda>(field, cell). standardField field = f \<and> cell \<noteq> []) r = [] then None
              else Some (NumV (parseNumericValue (snd (last
                     (filter (\<lambda>(field, cell). standardField field = f \<and> cell \<noteq> []) r))))))"
  using foldl_processField_cells [OF assms, of r] by (simp add: buildKeywordData_def)

lemma buildKeywordData_cells:
  assumes "distinct (map fst r)" and "f \<in> set numericFields"
  shows "map_of (props (buildKeywordData r kw)) f
           = (if cellsMappedTo r f = [] then None
              else Some (NumV (parseNumericValue (last (cellsMappedTo r f)))))"
  using buildKeywordData_field [OF assms, of kw]
  by (simp add: cellsMappedTo_def last_map)

lemma standardField_keyword:
  "standardField field = ''keyword'' \<longleftrightarrow>
     toLowerCase field \<in> {''keyword'', ''term'', ''search term'', ''query''}"
  by (auto simp: standardField_def fieldMap_def split: option.splits if_splits)

lemma fieldMap_keyword:
  "map_of fieldMap l = Some ''keyword'' \<longleftrightarrow> l \<in> {''keyword'', ''term'', ''search term'', ''query''}"
  by (simp add: fieldMap_def)

lemma find_Some_ex: "(find P xs \<noteq> None) = (\<exists>x \<in> set xs. P x)"
  by (induction xs) auto

lemma findKeywordField_iff:
  "findKeywordField r \<noteq> None \<longleftrightarrow> (\<exists>field \<in> set (map fst r). standardField field = ''keyword'')"
proof -
  have "\<And>l. (l = ''keyword'' \<or> l = ''term'' \<or> l = ''search term'' \<or> l = ''query''
            \<or> map_of fieldMap l = Some ''keyword'')
          = (l \<in> {''keyword'', ''term'', ''search term'', ''query''})"
    using fieldMap_keyword by auto
  then show ?thesis
    unfolding findKeywordField_def find_Some_ex standardField_keyword Let_def
    by simp
qed

lemma dropWhile_all: "(\<forall>x \<in> set (dropWhile P s). P x) \<longleftrightarrow> (\<forall>x \<in> set s. P x)"
  by (induction s) auto

lemma trim_Nil_iff: "trim s = [] \<longleftrightarrow> (\<forall>c \<in> set s. isWhiteSpace c)"
  by (simp add: trim_def dropWhile_all)

lemma toLowerChar_white:
  assumes "isWhiteSpace c"
  shows "toLowerChar c = c"
proof -
  from assms consider "c = CHR '' ''" | "c = CHR 0x09" | "c = CHR 0x0A" | "c = CHR 0x0B"
    | "c = CHR 0x0C" | "c = CHR 0x0D"
    by (auto simp: isWhiteSpace_def)
  then show ?thesis
    by cases (simp_all add: toLowerChar_def)
qed

lemma keyword_name_not_blank:
  assumes "standardField field = ''keyword''"
  shows "trim field \<noteq> []"
proof
  assume "trim field = []"
  then have ws: "\<forall>c \<in> set field. isWhiteSpace c" by (simp add: trim_Nil_iff)
  then have "map toLowerChar field = map (\<lambda>c. c) field"
    by (intro map_cong) (simp_all add: toLowerChar_white)
  then have "toLowerCase field = field" by (simp add: toLowerCase_def)
  moreover have "toLowerCase field \<in> {''keyword'', ''term'', ''search term'', ''query''}"
    using assms by (simp add: standardField_keyword)
  ultimately have "field \<in> {''keyword'', ''term'', ''search term'', ''query''}" by simp
  then have "\<not> isWhiteSpace (hd field)"
    by (auto simp: isWhiteSpace_def)
  moreover have "field \<noteq> []" using \<open>field \<in> _\<close> by auto
  ultimately show False using ws by (cases field) simp_all
qed

lemma missingFieldsOf_keyword:
  "''keyword'' \<in> set (missingFieldsOf available)
     \<longleftrightarrow> \<not> (\<exists>f \<in> set available. standardField f = ''keyword'')"
proof -
  have a: "\<And>f. map_of fieldMap (toLowerCase f) = Some ''keyword'' \<Longrightarrow> standardField f = ''keyword''"
    by (simp add: standardField_def)
  have "''keyword'' \<in> set (missingFieldsOf available)
          \<longleftrightarrow> ''keyword'' \<notin> set (map standardField available)
              \<and> \<not> (\<exists>f \<in> set available. map_of fieldMap (toLowerCase f) = Some ''keyword'')"
    by (simp add: missingFieldsOf_def list_ex_iff)
  also have "\<dots> \<longleftrightarrow> \<not> (\<exists>f \<in> set available. standardField f = ''keyword'')"
    using a by force
  finally show ?thesis .
qed

lemma keyword_not_missing:
  "''keyword'' \<in> set (missingFieldsOf (availableFieldsOf firstRow))
     \<longleftrightarrow> findKeywordField firstRow = None"
proof -
  have "(\<exists>f \<in> set (availableFieldsOf firstRow). standardField f = ''keyword'')
          \<longleftrightarrow> (\<exists>field \<in> set (map fst firstRow). standardField field = ''keyword'')"
    using keyword_name_not_blank by (auto simp: availableFieldsOf_def)
  moreover have "findKeywordField firstRow = None
          \<longleftrightarrow> \<not> (\<exists>field \<in> set (map fst firstRow). standardField field = ''keyword'')"
    using findKeywordField_iff [of firstRow] by blast
  ultimately show ?thesis
    unfolding missingFieldsOf_keyword by blast
qed

lemma processCSVResults_Cons:
  "processCSVResults newId (firstRow # rest) =
     (case findKeywordField firstRow of
        None \<Rightarrow> Inl MissingKeywordColumn
      | Some kf \<Rightarrow>
          Inr \<lparr>datasetId = newId,
               appDetails = foldl (appDetailStep firstRow) [] appFields,
               keywordsL = processRows kf [] [] (firstRow # rest),
               missingFields = [],
               availableFields = map standardField (availableFieldsOf firstRow)\<rparr>)"
proof (cases "findKeywordField firstRow")
  case None
  then have "''keyword'' \<in> set (missingFieldsOf (availableFieldsOf firstRow))"
    by (simp add: keyword_not_missing)
  then show ?thesis using None by (simp add: Let_def)
next
  case (Some kf)
  then have "''keyword'' \<notin> set (missingFieldsOf (availableFieldsOf firstRow))"
    by (simp add: keyword_not_missing)
  moreover from this have "missingFieldsOf (availableFieldsOf firstRow) = []"
    by (simp add: missingFieldsOf_def split: if_splits)
  ultimately show ?thesis using Some by (simp add: Let_def)
qed

lemma processCSVResults_Inr:
  assumes "processCSVResults newId data = Inr result"
  shows "\<exists>kf. data \<noteq> [] \<and> findKeywordField (hd data) = Some kf
           \<and> keywordsL result = processRows kf [] [] data"
proof (cases data)
  case Nil
  with assms show ?thesis by simp
next
  case (Cons firstRow rest)
  with assms show ?thesis
    by (auto simp only: processCSVResults_Cons list.sel split: option.splits) auto
qed

lemma processCSVResults_accepts:
  "(\<exists>result. processCSVResults newId data = Inr result)
     \<longleftrightarrow> data \<noteq> [] \<and> findKeywordField (hd data) \<noteq> None"
proof (cases data)
  case Nil
  then show ?thesis by simp
next
  case (Cons firstRow rest)
  then show ?thesis
    by (simp only: processCSVResults_Cons list.sel split: option.splits) auto
qed

text \<open>
  Claim C2. For every input the flexible parser accepts, the keyword records it returns
  hold no keyword string twice. Every record has a non-empty keyword and is the record
  built from the first row of the input that has this keyword: rows with an empty or
  absent keyword, and later rows with a keyword already seen, give no record. Every
  non-empty keyword of the input has its record.
\<close>

theorem keywords_deduplicated:
  assumes "processCSVResults newId data = Inr result"
  shows "distinct (map keyword (keywordsL result))
       \<and> (\<exists>kf. findKeywordField (hd data) = Some kf
            \<and> (\<forall>k \<in> set (keywordsL result).
                  keyword k \<noteq> []
                  \<and> (\<exists>pre r post. data = pre @ r # post
                        \<and> map_of r kf = Some (keyword k)
                        \<and> (\<forall>r' \<in> set pre. map_of r' kf \<noteq> Some (keyword k))
                        \<and> k = buildKeywordData r (keyword k)))
            \<and> (\<forall>r \<in> set data. \<forall>kw. map_of r kf = Some kw \<longrightarrow> kw \<noteq> []
                  \<longrightarrow> kw \<in> keyword ` set (keywordsL result)))"
proof -
  from processCSVResults_Inr [OF assms] obtain kf where
    kf: "findKeywordField (hd data) = Some kf" "keywordsL result = processRows kf [] [] data"
    by blast
  have d: "distinct (map keyword (keywordsL result))"
    unfolding kf(2) by (rule processRows_distinct)
  have o: "\<forall>k \<in> set (keywordsL result).
             keyword k \<noteq> []
             \<and> (\<exists>pre r post. data = pre @ r # post
                   \<and> map_of r kf = Some (keyword k)
                   \<and> (\<forall>r' \<in> set pre. map_of r' kf \<noteq> Some (keyword k))
                   \<and> k = buildKeywordData r (keyword k))"
  proof
    fix k assume "k \<in> set (keywordsL result)"
    then have "k \<in> set (processRows kf [] [] data)" by (simp add: kf(2))
    from processRows_origin [OF this] show "keyword k \<noteq> []
             \<and> (\<exists>pre r post. data = pre @ r # post
                   \<and> map_of r kf = Some (keyword k)
                   \<and> (\<forall>r' \<in> set pre. map_of r' kf \<noteq> Some (keyword k))
                   \<and> k = buildKeywordData r (keyword k))"
      by blast
  qed
  have c: "\<forall>r \<in> set data. \<forall>kw. map_of r kf = Some kw \<longrightarrow> kw \<noteq> []
             \<longrightarrow> kw \<in> keyword ` set (keywordsL result)"
    unfolding kf(2) using processRows_complete [of _ data kf _ "[]"] by simp
  show ?thesis using d kf(1) o c by blast
qed

theorem keywords_deduplicated_witness:
  "processCSVResults ''ds''
     [[(''Keyword'', ''run''), (''Note'', ''first'')],
      [(''Keyword'', ''''), (''Note'', ''second'')],
      [(''Keyword'', ''run''), (''Note'', ''third'')]]
   = Inr \<lparr>datasetId = ''ds'', appDetails = [],
           keywordsL = [\<lparr>keyword = ''run'', props = [(''note'', StrV ''first'')]\<rparr>],
           missingFields = [], availableFields = [''keyword'', ''note'']\<rparr>
   \<and> distinct (map keyword [\<lparr>keyword = ''run'', props = [(''note'', StrV ''first'')]\<rparr>])"
proof -
  have h: "processCSVResults ''ds''
     [[(''Keyword'', ''run''), (''Note'', ''first'')],
      [(''Keyword'', ''''), (''Note'', ''second'')],
      [(''Keyword'', ''run''), (''Note'', ''third'')]]
   = Inr \<lparr>datasetId = ''ds'', appDetails = [],
           keywordsL = [\<lparr>keyword = ''run'', props = [(''note'', StrV ''first'')]\<rparr>],
           missingFields = [], availableFields = [''keyword'', ''note'']\<rparr>"
    by code_simp
  from keywords_deduplicated [OF h] h show ?thesis by simp
qed

text \<open>
  Against claim C1 as stated: the cell \<open>abc\<close> under the header \<open>Volume\<close> does not
  parse as a number after stripping, and the record of its row holds the field
  \<open>volume\<close> with the value 0: the field is not absent.
\<close>

theorem malformed_numeric_counterexample:
  "parseFloat (cleanNumeric ''abc'') = NaN
   \<and> processCSVResults ''ds'' [[(''Keyword'', ''fitness''), (''Volume'', ''abc'')]]
       = Inr \<lparr>datasetId = ''ds'', appDetails = [],
               keywordsL = [\<lparr>keyword = ''fitness'', props = [(''volume'', NumV (Finite 0))]\<rparr>],
               missingFields = [], availableFields = [''keyword'', ''volume'']\<rparr>
   \<and> map_of (props \<lparr>keyword = ''fitness'', props = [(''volume'', NumV (Finite 0))]\<rparr>) ''volume''
       \<noteq> None"
  by code_simp

text \<open>
  Claim C1, amended. Whether the flexible parser throws depends on the header names of
  the first row alone, never on a cell. Every record it returns is built from a row of
  the input, and for every numeric canonical field the record holds the coercion of the
  last non-empty cell of that row under a header mapped to the field: the cell with the
  characters comma, percent and dollar stripped and parsed as a float, and the number 0
  when the stripped cell does not parse. The field is then present with the value 0; it
  is absent only when the row has no non-empty cell for it.
\<close>

theorem numeric_cell_coercion:
  assumes "processCSVResults newId data = Inr result"
    and "k \<in> set (keywordsL result)"
    and "\<forall>r \<in> set data. distinct (map fst r)"
  shows "((\<exists>res. processCSVResults newId data = Inr res)
            \<longleftrightarrow> data \<noteq> [] \<and> findKeywordField (hd data) \<noteq> None)
       \<and> (\<exists>r \<in> set data. k = buildKeywordData r (keyword k)
            \<and> (\<forall>f \<in> set numericFields.
                  map_of (props k) f
                    = (if cellsMappedTo r f = [] then None
                       else Some (NumV
                         (if parseFloat (cleanNumeric (last (cellsMappedTo r f))) = NaN
                          then Finite 0
                          else parseFloat (cleanNumeric (last (cellsMappedTo r f))))))))"
proof -
  from processCSVResults_Inr [OF assms(1)] obtain kf where
    kf: "keywordsL result = processRows kf [] [] data" by blast
  with assms(2) have "k \<in> set (processRows kf [] [] data)" by simp
  from processRows_origin [OF this] obtain pre r post where
    r: "data = pre @ r # post" "k = buildKeywordData r (keyword k)" by blast
  have rin: "r \<in> set data" using r(1) by simp
  with assms(3) have dist: "distinct (map fst r)" by blast
  have cells: "\<forall>f \<in> set numericFields.
                  map_of (props k) f
                    = (if cellsMappedTo r f = [] then None
                       else Some (NumV
                         (if parseFloat (cleanNumeric (last (cellsMappedTo r f))) = NaN
                          then Finite 0
                          else parseFloat (cleanNumeric (last (cellsMappedTo r f))))))"
  proof
    fix f assume f: "f \<in> set numericFields"
    have "map_of (props (buildKeywordData r (keyword k))) f
            = (if cellsMappedTo r f = [] then None
               else Some (NumV (parseNumericValue (last (cellsMappedTo r f)))))"
      using dist f by (rule buildKeywordData_cells)
    then have "map_of (props k) f
            = (if cellsMappedTo r f = [] then None
               else Some (NumV (parseNumericValue (last (cellsMappedTo r f)))))"
      using r(2) by simp
    then show "map_of (props k) f
                    = (if cellsMappedTo r f = [] then None
                       else Some (NumV
                         (if parseFloat (cleanNumeric (last (cellsMappedTo r f))) = NaN
                          then Finite 0
                          else parseFloat (cleanNumeric (last (cellsMappedTo r f))))))"
      by (simp add: parseNumericValue_def isNaN_def Let_def)
  qed
  show ?thesis
    using processCSVResults_accepts [of newId data] rin r(2) cells by blast
qed

theorem numeric_cell_coercion_witness:
  "processCSVResults ''ds'' [[(''Keyword'', ''fitness tracker''), (''Volume'', ''1,200''), (''Difficulty'', ''abc'')]]
   = Inr \<lparr>datasetId = ''ds'', appDetails = [],
           keywordsL = [buildKeywordData [(''Keyword'', ''fitness tracker''), (''Volume'', ''1,200''), (''Difficulty'', ''abc'')] ''fitness tracker''],
           missingFields = [], availableFields = [''keyword'', ''volume'', ''difficulty'']\<rparr>
   \<and> distinct (map fst [(''Keyword'', ''fitness tracker''), (''Volume'', ''1,200''), (''Difficulty'', ''abc'')])
   \<and> map_of (props (buildKeywordData [(''Keyword'', ''fitness tracker''), (''Volume'', ''1,200''), (''Difficulty'', ''abc'')] ''fitness tracker'')) ''volume''
       = Some (NumV (Finite 1200))
   \<and> map_of (props (buildKeywordData [(''Keyword'', ''fitness tracker''), (''Volume'', ''1,200''), (''Difficulty'', ''abc'')] ''fitness tracker'')) ''difficulty''
       = Some (NumV (Finite 0))
   \<and> map_of (props (buildKeywordData [(''Keyword'', ''fitness tracker''), (''Volume'', ''1,200''), (''Difficulty'', ''abc'')] ''fitness tracker'')) ''cpc'' = None"
proof -
  let ?r = "[(''Keyword'', ''fitness tracker''), (''Volume'', ''1,200''), (''Difficulty'', ''abc'')]"
  let ?k = "buildKeywordData ?r ''fitness tracker''"
  let ?res = "\<lparr>datasetId = ''ds'', appDetails = [], keywordsL = [?k],
           missingFields = [], availableFields = [''keyword'', ''volume'', ''difficulty'']\<rparr>"
  have fk: "findKeywordField ?r = Some ''Keyword''" by code_simp
  have ad: "foldl (appDetailStep ?r) [] appFields = []" by code_simp
  have av: "map standardField (availableFieldsOf ?r) = [''keyword'', ''volume'', ''difficulty'']"
    by code_simp
  have pr: "processRows ''Keyword'' [] [] [?r] = [?k]"
    using processRows_keep [of ?r "''Keyword''" "''fitness tracker''" "[]" "[]"] by simp
  have h1: "processCSVResults ''ds'' [?r] = Inr ?res"
    unfolding processCSVResults_Cons fk option.case ad av pr ..
  have h2: "?k \<in> set (keywordsL ?res)" by simp
  have h3: "\<forall>r \<in> set [?r]. distinct (map fst r)" by simp
  have kk: "keyword ?k = ''fitness tracker''" by (simp add: buildKeywordData_def)
  from numeric_cell_coercion [OF h1 h2 h3] obtain r where
    rr: "r \<in> set [?r]" and
    cr: "\<forall>f \<in> set numericFields.
             map_of (props ?k) f
               = (if cellsMappedTo r f = [] then None
                  else Some (NumV
                    (if parseFloat (cleanNumeric (last (cellsMappedTo r f))) = NaN
                     then Finite 0
                     else parseFloat (cleanNumeric (last (cellsMappedTo r f))))))"
    by blast
  from rr have req: "r = ?r" by simp
  note c = cr [unfolded req]
  have nv: "''volume'' \<in> set numericFields" "''difficulty'' \<in> set numericFields"
    "''cpc'' \<in> set numericFields"
    by (simp_all add: numericFields_def)
  have cv: "cellsMappedTo ?r ''volume'' = [''1,200'']" by code_simp
  have cd: "cellsMappedTo ?r ''difficulty'' = [''abc'']" by code_simp
  have cc: "cellsMappedTo ?r ''cpc'' = []" by code_simp
  have pv: "parseFloat (cleanNumeric ''1,200'') = Finite 1200"
    by (simp add: cleanNumeric_def parseFloat_def parseUnsigned_def isWhiteSpace_def isDigit_def
          digitsValue_def digitValue_def exponentPart_def)
  have pd: "parseFloat (cleanNumeric ''abc'') = NaN"
    by (simp add: cleanNumeric_def parseFloat_def parseUnsigned_def isWhiteSpace_def isDigit_def)
  have v: "map_of (props ?k) ''volume'' = Some (NumV (Finite 1200))"
    using c [rule_format, OF nv(1)] unfolding cv by (simp add: pv)
  have d: "map_of (props ?k) ''difficulty'' = Some (NumV (Finite 0))"
    using c [rule_format, OF nv(2)] unfolding cd by (simp add: pd)
  have n: "map_of (props ?k) ''cpc'' = None"
    using c [rule_format, OF nv(3)] unfolding cc by simp
  have h4: "distinct (map fst ?r)" by simp
  show ?thesis using h1 h4 v d n by blast
qed

subsection \<open>Metadata options\<close>

lemma appendKeyword_le: "length acc \<le> 99 \<Longrightarrow> length (appendKeyword acc kw) \<le> 99"
  by (simp add: appendKeyword_def)

lemma foldl_appendKeyword_le:
  "length acc \<le> 99 \<Longrightarrow> length (foldl appendKeyword acc shuffled) \<le> 99"
  by (induction shuffled arbitrary: acc) (simp_all add: appendKeyword_le)

text \<open>
  Claim C7. For every list of keywords the loop is run over, of any number and length,
  the assembled comma-separated keyword string has at most 100 characters: a keyword is
  appended only while the length of the string with the keyword stays at most 97, which
  leaves room for the separator.
\<close>

theorem keywordsString_length:
  "length (keywordsStringOf shuffled) \<le> 100
   \<and> appendKeyword acc kw =
       (if length acc + length kw \<le> 97
        then acc @ (if acc = [] then [] else '', '') @ kw else acc)"
proof -
  have "length (foldl appendKeyword [] shuffled) \<le> 99"
    by (rule foldl_appendKeyword_le) simp
  then show ?thesis
    by (simp add: keywordsStringOf_def appendKeyword_def)
qed

subsection \<open>Strict parser\<close>

lemma parseRows_outcomes:
  "parseRows separator headers i lines (dat, errors)
     = (dat @ rowRecords (rowOutcomes separator headers i lines),
        errors @ rowErrors (rowOutcomes separator headers i lines))"
proof (induction lines arbitrary: i dat errors)
  case Nil
  then show ?case by simp
next
  case (Cons line rest)
  show ?case
  proof (cases "parseRow separator headers i line")
    case (Inl e)
    then show ?thesis using Cons.IH [of "i + 1" dat "errors @ [e]"] by simp
  next
    case (Inr k)
    then show ?thesis using Cons.IH [of "i + 1" "dat @ [k]" errors] by simp
  qed
qed

lemma rowErrors_Nil_iff: "rowErrors os = [] \<longleftrightarrow> (\<forall>x \<in> set os. \<not> isl x)"
  by (induction os rule: rowErrors.induct) simp_all

lemma rowRecords_nonempty: "os \<noteq> [] \<Longrightarrow> rowErrors os = [] \<Longrightarrow> rowRecords os \<noteq> []"
  by (cases os rule: rowErrors.cases) simp_all

lemma length_rowOutcomes: "length (rowOutcomes separator headers i lines) = length lines"
  by (induction lines arbitrary: i) simp_all

lemma checkFile_dataLines:
  assumes "checkFile name text = Inr (separator, headers, dataLines)"
  shows "dataLines \<noteq> []"
proof -
  have "length (nonEmptyLinesOf text) \<ge> 2 \<and> dataLines = tl (nonEmptyLinesOf text)"
    using assms by (auto simp: checkFile_def Let_def split: if_splits)
  then show ?thesis by (cases "nonEmptyLinesOf text") auto
qed

text \<open>
  Claim C4, amended. In the strict parser, once the file name, the line count and the
  header line are accepted, every data row gives either its record or a row-level error
  (a wrong column count, or missing values of required fields). The row-level errors are
  collected in row order and thrown together, and a single one is fatal to the whole
  parse: the parser returns records only when every data row is valid, and then it
  returns the records of all rows.
\<close>

theorem row_errors_fatal:
  assumes "checkFile name text = Inr (separator, headers, dataLines)"
  shows "dataLines \<noteq> []
       \<and> length (rowOutcomes separator headers 1 dataLines) = length dataLines
       \<and> parseCSV name text =
           (if list_ex isl (rowOutcomes separator headers 1 dataLines)
            then Inl (RowIssues (rowErrors (rowOutcomes separator headers 1 dataLines)))
            else Inr (rowRecords (rowOutcomes separator headers 1 dataLines)))"
proof -
  let ?os = "rowOutcomes separator headers 1 dataLines"
  have ne: "dataLines \<noteq> []" using assms by (rule checkFile_dataLines)
  then have os: "?os \<noteq> []" using length_rowOutcomes [of separator headers 1 dataLines] by auto
  have p: "parseCSV name text = finishParse (rowRecords ?os, rowErrors ?os)"
    using assms by (simp add: parseCSV_def parseRows_outcomes)
  have e: "list_ex isl ?os \<longleftrightarrow> rowErrors ?os \<noteq> []"
    by (simp add: rowErrors_Nil_iff list_ex_iff)
  have "parseCSV name text =
           (if list_ex isl ?os then Inl (RowIssues (rowErrors ?os)) else Inr (rowRecords ?os))"
  proof (cases "rowErrors ?os = []")
    case True
    then have "rowRecords ?os \<noteq> []" using os by (intro rowRecords_nonempty)
    then show ?thesis using True p e by (simp add: finishParse_def)
  next
    case False
    then show ?thesis using p e by (simp add: finishParse_def)
  qed
  then show ?thesis using ne length_rowOutcomes by blast
qed

text \<open>A file with a valid row (row 2) and a row of one column (row 3).\<close>

lemma strict_example_checkFile:
  "checkFile ''k.csv''
       (''App Name,App ID,Store,Device,Country Code,Language Code,Main App ID,Main App Name,Keyword,Keyword List,Starred,Volume,Difficulty,Maximum Reach,Branded,Branded App ID,Branded App Name,KEI,Chance,Relevancy Score''
        @ [CHR 0x0A] @ ''Fit,id1,ios,,,,,,run,,yes,1200,35,5000,no,,,10,20,30''
        @ [CHR 0x0A] @ ''oops'')
     = Inr (CHR '','', EXPECTED_HEADERS, [''Fit,id1,ios,,,,,,run,,yes,1200,35,5000,no,,,10,20,30'', ''oops''])"
  by code_simp

lemma strict_example_outcomes:
  "rowOutcomes (CHR '','') EXPECTED_HEADERS 1 [''Fit,id1,ios,,,,,,run,,yes,1200,35,5000,no,,,10,20,30'', ''oops'']
     = [Inr \<lparr>appName = ''Fit'', appId = ''id1'', keywordS = ''run'',
         store = ''iOS'', device = ''all'', countryCode = ''US'',
         languageCode = ''en'', mainAppId = ''id1'', mainAppName = ''Fit'',
         keywordList = ''run'', starred = True, volumeS = Some 1200,
         difficultyS = 35, maximumReach = 5000, branded = False,
         brandedAppId = None, brandedAppName = None, kei = 10, chance = 20,
         relevancyScore = 30\<rparr>,
        Inl (WrongColumnCount 3 20 1)]"
  by code_simp

theorem row_errors_fatal_witness:
  "checkFile ''k.csv''
       (''App Name,App ID,Store,Device,Country Code,Language Code,Main App ID,Main App Name,Keyword,Keyword List,Starred,Volume,Difficulty,Maximum Reach,Branded,Branded App ID,Branded App Name,KEI,Chance,Relevancy Score''
        @ [CHR 0x0A] @ ''Fit,id1,ios,,,,,,run,,yes,1200,35,5000,no,,,10,20,30''
        @ [CHR 0x0A] @ ''oops'')
     = Inr (CHR '','', EXPECTED_HEADERS, [''Fit,id1,ios,,,,,,run,,yes,1200,35,5000,no,,,10,20,30'', ''oops''])
   \<and> parseCSV ''k.csv''
       (''App Name,App ID,Store,Device,Country Code,Language Code,Main App ID,Main App Name,Keyword,Keyword List,Starred,Volume,Difficulty,Maximum Reach,Branded,Branded App ID,Branded App Name,KEI,Chance,Relevancy Score''
        @ [CHR 0x0A] @ ''Fit,id1,ios,,,,,,run,,yes,1200,35,5000,no,,,10,20,30''
        @ [CHR 0x0A] @ ''oops'')
     = Inl (RowIssues [WrongColumnCount 3 20 1])"
proof -
  note h = strict_example_checkFile
  note o = strict_example_outcomes
  from row_errors_fatal [OF h] show ?thesis
    unfolding o using h by simp
qed

text \<open>
  Against claim C4 as stated: row 2 of this file is valid and row 3 has one column
  instead of 20; the parse does not return the valid row, it throws the row error.
\<close>

theorem valid_row_dropped_counterexample:
  "parseRow (CHR '','') EXPECTED_HEADERS 1 ''Fit,id1,ios,,,,,,run,,yes,1200,35,5000,no,,,10,20,30''
     = Inr \<lparr>appName = ''Fit'', appId = ''id1'', keywordS = ''run'',
         store = ''iOS'', device = ''all'', countryCode = ''US'',
         languageCode = ''en'', mainAppId = ''id1'', mainAppName = ''Fit'',
         keywordList = ''run'', starred = True, volumeS = Some 1200,
         difficultyS = 35, maximumReach = 5000, branded = False,
         brandedAppId = None, brandedAppName = None, kei = 10, chance = 20,
         relevancyScore = 30\<rparr>
   \<and> parseCSV ''k.csv''
       (''App Name,App ID,Store,Device,Country Code,Language Code,Main App ID,Main App Name,Keyword,Keyword List,Starred,Volume,Difficulty,Maximum Reach,Branded,Branded App ID,Branded App Name,KEI,Chance,Relevancy Score''
        @ [CHR 0x0A] @ ''Fit,id1,ios,,,,,,run,,yes,1200,35,5000,no,,,10,20,30''
        @ [CHR 0x0A] @ ''oops'')
     = Inl (RowIssues [WrongColumnCount 3 20 1])"
proof -
  note h = strict_example_checkFile
  have p: "parseCSV ''k.csv''
       (''App Name,App ID,Store,Device,Country Code,Language Code,Main App ID,Main App Name,Keyword,Keyword List,Starred,Volume,Difficulty,Maximum Reach,Branded,Branded App ID,Branded App Name,KEI,Chance,Relevancy Score''
        @ [CHR 0x0A] @ ''Fit,id1,ios,,,,,,run,,yes,1200,35,5000,no,,,10,20,30''
        @ [CHR 0x0A] @ ''oops'')
     = Inl (RowIssues [WrongColumnCount 3 20 1])"
    unfolding parseCSV_def h sum.case prod.case parseRows_outcomes strict_example_outcomes
    by (simp add: finishParse_def)
  have r: "parseRow (CHR '','') EXPECTED_HEADERS 1 ''Fit,id1,ios,,,,,,run,,yes,1200,35,5000,no,,,10,20,30''
     = Inr \<lparr>appName = ''Fit'', appId = ''id1'', keywordS = ''run'',
         store = ''iOS'', device = ''all'', countryCode = ''US'',
         languageCode = ''en'', mainAppId = ''id1'', mainAppName = ''Fit'',
         keywordList = ''run'', starred = True, volumeS = Some 1200,
         difficultyS = 35, maximumReach = 5000, branded = False,
         brandedAppId = None, brandedAppName = None, kei = 10, chance = 20,
         relevancyScore = 30\<rparr>"
    using strict_example_outcomes by (simp del: One_nat_def)
  show ?thesis using r p by (rule conjI)
qed

subsection \<open>Keyword categories\<close>

lemma map_of_foldl_update:
  "map_of (foldl (\<lambda>al k. AList.update k (f k) al) al0 ks) x
     = (if x \<in> set ks then Some (f x) else map_of al0 x)"
  by (induction ks arbitrary: al0) (simp_all add: update_conv')

lemma distinct_foldl_update:
  "distinct (map fst al0) \<Longrightarrow> distinct (map fst (foldl (\<lambda>al k. AList.update k (f k) al) al0 ks))"
  by (induction ks arbitrary: al0) (simp_all add: distinct_update)

lemma set_foldl_update:
  "set (foldl (\<lambda>al k. AList.update k (f k) al) [] ks) = (\<lambda>k. (k, f k)) ` set ks"
proof -
  let ?al = "foldl (\<lambda>al k. AList.update k (f k) al) [] ks"
  have d: "distinct (map fst ?al)" by (rule distinct_foldl_update) simp
  have "\<And>k v. (k, v) \<in> set ?al \<longleftrightarrow> k \<in> set ks \<and> v = f k"
  proof -
    fix k v
    have "(k, v) \<in> set ?al \<longleftrightarrow> map_of ?al k = Some v"
      using d by simp
    also have "\<dots> \<longleftrightarrow> k \<in> set ks \<and> v = f k"
      by (auto simp: map_of_foldl_update)
    finally show "(k, v) \<in> set ?al \<longleftrightarrow> k \<in> set ks \<and> v = f k" .
  qed
  then show ?thesis by auto
qed

lemma set_themeCategories:
  "set (themeCategories kws) = (\<lambda>theme. (theme, themeMembers kws theme)) ` set (commonThemes kws)"
  unfolding themeCategories_def by (rule set_foldl_update)

lemma map_of_themeCategories:
  "map_of (themeCategories kws) x
     = (if x \<in> set (commonThemes kws) then Some (themeMembers kws x) else None)"
  unfolding themeCategories_def by (simp add: map_of_foldl_update)

lemma distinct_themeCategories: "distinct (map fst (themeCategories kws))"
  unfolding themeCategories_def by (rule distinct_foldl_update) simp

lemma categorized_iff:
  assumes "kw \<in> set kws"
  shows "keyword kw \<in> set (categorizedKeywords (themeCategories kws))
     \<longleftrightarrow> list_ex (\<lambda>theme. stringIncludes (toLowerCase (keyword kw)) (toLowerCase theme))
           (commonThemes kws)"
proof
  assume "keyword kw \<in> set (categorizedKeywords (themeCategories kws))"
  then obtain theme k' where t: "theme \<in> set (commonThemes kws)"
      "k' \<in> set (themeMembers kws theme)" "keyword k' = keyword kw"
    by (auto simp: categorizedKeywords_def set_themeCategories)
  then have "stringIncludes (toLowerCase (keyword kw)) (toLowerCase theme)"
    by (auto simp: themeMembers_def)
  with t(1) show "list_ex (\<lambda>theme. stringIncludes (toLowerCase (keyword kw)) (toLowerCase theme))
           (commonThemes kws)"
    by (auto simp: list_ex_iff)
next
  assume "list_ex (\<lambda>theme. stringIncludes (toLowerCase (keyword kw)) (toLowerCase theme))
           (commonThemes kws)"
  then obtain theme where t: "theme \<in> set (commonThemes kws)"
      "stringIncludes (toLowerCase (keyword kw)) (toLowerCase theme)"
    by (auto simp: list_ex_iff)
  then have "kw \<in> set (themeMembers kws theme)"
    using assms by (simp add: themeMembers_def)
  with t(1) show "keyword kw \<in> set (categorizedKeywords (themeCategories kws))"
    by (force simp: categorizedKeywords_def set_themeCategories)
qed

lemma otherKeywords_eq:
  "otherKeywords kws
     = filter (\<lambda>kw. \<not> list_ex (\<lambda>theme. stringIncludes (toLowerCase (keyword kw)) (toLowerCase theme))
                          (commonThemes kws)) kws"
  unfolding otherKeywords_def
  by (rule filter_cong) (simp_all add: categorized_iff)

lemma map_of_filter_values:
  "distinct (map fst al) \<Longrightarrow>
     map_of (filter (\<lambda>(k, v). P v) al) x
       = (case map_of al x of None \<Rightarrow> None | Some v \<Rightarrow> if P v then Some v else None)"
proof (induction al)
  case Nil
  then show ?case by simp
next
  case (Cons p al)
  obtain k v where p: "p = (k, v)" by (cases p)
  show ?case
  proof (cases "x = k")
    case True
    then have "map_of al x = None" using Cons.prems p by (simp add: map_of_eq_None_iff)
    then have "map_of (filter (\<lambda>(k, v). P v) al) x = None"
      using Cons by simp
    then show ?thesis using True p by simp
  next
    case False
    then show ?thesis using Cons p by simp
  qed
qed

lemma map_of_categorizeKeywords:
  "map_of (categorizeKeywords kws) x
     = (case (if x = ''other'' then Some (otherKeywords kws)
              else if x \<in> set (commonThemes kws) then Some (themeMembers kws x) else None) of
          None \<Rightarrow> None
        | Some members \<Rightarrow> if length members < 2 then None else Some members)"
proof -
  let ?cats = "AList.update ''other'' (otherKeywords kws) (themeCategories kws)"
  have d: "distinct (map fst ?cats)"
    by (intro distinct_update distinct_themeCategories)
  have m: "map_of ?cats x = (if x = ''other'' then Some (otherKeywords kws)
              else if x \<in> set (commonThemes kws) then Some (themeMembers kws x) else None)"
    by (simp add: update_conv' map_of_themeCategories)
  have "map_of (categorizeKeywords kws) x
          = (case map_of ?cats x of None \<Rightarrow> None
             | Some v \<Rightarrow> if \<not> length v < 2 then Some v else None)"
    unfolding categorizeKeywords_def Let_def
    by (rule map_of_filter_values [OF d])
  then show ?thesis unfolding m by (auto split: option.splits)
qed

lemma countWord_plain:
  assumes "w \<notin> set prototypeNames" and "map_of freq w \<noteq> Some NotNumber"
  shows "map_of (countWord freq word) w \<noteq> Some NotNumber
       \<and> (case map_of (countWord freq word) w of Some (Count n) \<Rightarrow> n | _ \<Rightarrow> 0)
         = (case map_of freq w of Some (Count n) \<Rightarrow> n | _ \<Rightarrow> 0)
           + (if word = w \<and> length word > 3 then 1 else 0)"
proof (cases "word = w")
  case True
  then show ?thesis
    using assms
    by (auto simp: countWord_def prototypeNames_def update_conv'
             split: option.splits frequency.splits)
next
  case False
  then have "map_of (countWord freq word) w = map_of freq w"
    by (auto simp: countWord_def update_conv' split: option.splits frequency.splits)
  then show ?thesis using assms(2) False by simp
qed

lemma foldl_countWord_plain:
  assumes "w \<notin> set prototypeNames" and "map_of freq w \<noteq> Some NotNumber"
  shows "map_of (foldl countWord freq ws) w \<noteq> Some NotNumber
       \<and> (case map_of (foldl countWord freq ws) w of Some (Count n) \<Rightarrow> n | _ \<Rightarrow> 0)
         = (case map_of freq w of Some (Count n) \<Rightarrow> n | _ \<Rightarrow> 0)
           + (if length w > 3 then count_list ws w else 0)"
  using assms(2)
proof (induction ws arbitrary: freq)
  case Nil
  then show ?case by simp
next
  case (Cons word ws)
  note step = countWord_plain [OF assms(1) Cons.prems, of word]
  from step have ok: "map_of (countWord freq word) w \<noteq> Some NotNumber" by blast
  show ?case
    using Cons.IH [OF ok] step by auto
qed

lemma foldl_keywords_plain:
  assumes "w \<notin> set prototypeNames" and "map_of freq w \<noteq> Some NotNumber"
  shows "map_of (foldl (\<lambda>wordFrequency kw. foldl countWord wordFrequency (tokensOf kw)) freq kws) w
           \<noteq> Some NotNumber
       \<and> (case map_of (foldl (\<lambda>wordFrequency kw. foldl countWord wordFrequency (tokensOf kw)) freq kws) w
            of Some (Count n) \<Rightarrow> n | _ \<Rightarrow> 0)
         = (case map_of freq w of Some (Count n) \<Rightarrow> n | _ \<Rightarrow> 0)
           + (if length w > 3 then count_list (concat (map tokensOf kws)) w else 0)"
  using assms(2)
proof (induction kws arbitrary: freq)
  case Nil
  then show ?case by simp
next
  case (Cons kw kws)
  note step = foldl_countWord_plain [OF assms(1) Cons.prems, of "tokensOf kw"]
  from step have ok: "map_of (foldl countWord freq (tokensOf kw)) w \<noteq> Some NotNumber" by blast
  show ?case
    using Cons.IH [OF ok] step by auto
qed

lemma countWord_proto:
  assumes "w \<in> set prototypeNames" and "\<forall>n. map_of freq w \<noteq> Some (Count n)"
  shows "\<forall>n. map_of (countWord freq word) w \<noteq> Some (Count n)"
proof (cases "word = w")
  case True
  then show ?thesis
    using assms
    by (auto simp: countWord_def prototypeNames_def update_conv'
             split: option.splits frequency.splits)
next
  case False
  then have "map_of (countWord freq word) w = map_of freq w"
    by (auto simp: countWord_def update_conv' split: option.splits frequency.splits)
  then show ?thesis using assms(2) by simp
qed

lemma foldl_countWord_proto:
  assumes "w \<in> set prototypeNames" and "\<forall>n. map_of freq w \<noteq> Some (Count n)"
  shows "\<forall>n. map_of (foldl countWord freq ws) w \<noteq> Some (Count n)"
  using assms(2)
proof (induction ws arbitrary: freq)
  case Nil
  then show ?case by simp
next
  case (Cons word ws)
  show ?case
    using Cons.IH [OF countWord_proto [OF assms(1) Cons.prems, of word]] by simp
qed

lemma foldl_keywords_proto:
  assumes "w \<in> set prototypeNames" and "\<forall>n. map_of freq w \<noteq> Some (Count n)"
  shows "\<forall>n. map_of (foldl (\<lambda>wordFrequency kw. foldl countWord wordFrequency (tokensOf kw)) freq kws) w
           \<noteq> Some (Count n)"
  using assms(2)
proof (induction kws arbitrary: freq)
  case Nil
  then show ?case by simp
next
  case (Cons kw kws)
  show ?case
    using Cons.IH [OF foldl_countWord_proto [OF assms(1) Cons.prems, of "tokensOf kw"]] by simp
qed

lemma distinct_countWord: "distinct (map fst freq) \<Longrightarrow> distinct (map fst (countWord freq word))"
  by (auto simp: countWord_def distinct_update split: option.splits frequency.splits)

lemma distinct_foldl_countWord:
  "distinct (map fst freq) \<Longrightarrow> distinct (map fst (foldl countWord freq ws))"
  by (induction ws arbitrary: freq) (simp_all add: distinct_countWord)

lemma distinct_wordFrequency_aux:
  "distinct (map fst freq) \<Longrightarrow>
     distinct (map fst (foldl (\<lambda>wordFrequency kw. foldl countWord wordFrequency (tokensOf kw)) freq kws))"
  by (induction kws arbitrary: freq) (simp_all add: distinct_foldl_countWord)

lemma distinct_wordFrequencyOf: "distinct (map fst (wordFrequencyOf kws))"
  unfolding wordFrequencyOf_def by (rule distinct_wordFrequency_aux) simp

lemma commonThemes_iff:
  "theme \<in> set (commonThemes kws)
     \<longleftrightarrow> length theme > 3 \<and> theme \<notin> set prototypeNames
         \<and> 2 \<le> count_list (concat (map tokensOf kws)) theme"
proof -
  let ?freq = "wordFrequencyOf kws"
  have "theme \<in> set (commonThemes kws) \<longleftrightarrow> (\<exists>c. (theme, c) \<in> set ?freq \<and> atLeastTwo c)"
    by (force simp: commonThemes_def)
  also have "\<dots> \<longleftrightarrow> (\<exists>c. map_of ?freq theme = Some c \<and> atLeastTwo c)"
    using distinct_wordFrequencyOf [of kws] by simp
  also have "\<dots> \<longleftrightarrow> (\<exists>n. map_of ?freq theme = Some (Count n) \<and> 2 \<le> n)"
  proof
    assume "\<exists>c. map_of ?freq theme = Some c \<and> atLeastTwo c"
    then obtain c where c: "map_of ?freq theme = Some c" "atLeastTwo c" by blast
    then show "\<exists>n. map_of ?freq theme = Some (Count n) \<and> 2 \<le> n"
      by (cases c) (simp_all add: atLeastTwo_def)
  next
    assume "\<exists>n. map_of ?freq theme = Some (Count n) \<and> 2 \<le> n"
    then obtain n where "map_of ?freq theme = Some (Count n)" "2 \<le> n" by blast
    then have "map_of ?freq theme = Some (Count n) \<and> atLeastTwo (Count n)"
      by (simp add: atLeastTwo_def)
    then show "\<exists>c. map_of ?freq theme = Some c \<and> atLeastTwo c" by blast
  qed
  finally have themes: "theme \<in> set (commonThemes kws)
      \<longleftrightarrow> (\<exists>n. map_of ?freq theme = Some (Count n) \<and> 2 \<le> n)" .
  show ?thesis
  proof (cases "theme \<in> set prototypeNames")
    case True
    have "\<forall>n. map_of ?freq theme \<noteq> Some (Count n)"
      unfolding wordFrequencyOf_def by (rule foldl_keywords_proto [OF True]) simp
    then show ?thesis using themes True by simp
  next
    case False
    have c: "(case map_of ?freq theme of Some (Count n) \<Rightarrow> n | _ \<Rightarrow> 0)
               = (if length theme > 3 then count_list (concat (map tokensOf kws)) theme else 0)"
      unfolding wordFrequencyOf_def using foldl_keywords_plain [OF False, of "[]" kws] by simp
    have "(\<exists>n. map_of ?freq theme = Some (Count n) \<and> 2 \<le> n)
            \<longleftrightarrow> 2 \<le> (case map_of ?freq theme of Some (Count n) \<Rightarrow> n | _ \<Rightarrow> 0)"
      by (auto split: option.splits frequency.splits)
    then show ?thesis using themes False unfolding c by auto
  qed
qed

lemma count_list_distinct:
  assumes "distinct (filter p xs)" and "p w"
  shows "count_list xs w = (if w \<in> set xs then 1 else 0)"
  using assms
proof (induction xs)
  case Nil
  then show ?case by simp
next
  case (Cons x xs)
  have d: "distinct (filter p xs)" using Cons.prems(1) by (simp split: if_splits)
  have ih: "count_list xs w = (if w \<in> set xs then 1 else 0)"
    using Cons.IH [OF d Cons.prems(2)] .
  show ?case
  proof (cases "x = w")
    case True
    then have "w \<notin> set (filter p xs)" using Cons.prems by simp
    then have "w \<notin> set xs" using Cons.prems(2) by simp
    then show ?thesis using True ih by simp
  next
    case False
    then show ?thesis using ih by simp
  qed
qed

lemma count_tokens_keywords:
  assumes "\<forall>kw \<in> set kws. distinct (filter (\<lambda>t. length t > 3) (tokensOf kw))" and "length w > 3"
  shows "count_list (concat (map tokensOf kws)) w
           = length (filter (\<lambda>kw. w \<in> set (tokensOf kw)) kws)"
  using assms(1)
proof (induction kws)
  case Nil
  then show ?case by simp
next
  case (Cons kw kws)
  have "distinct (filter (\<lambda>t. length t > 3) (tokensOf kw))" using Cons.prems by simp
  then have "count_list (tokensOf kw) w = (if w \<in> set (tokensOf kw) then 1 else 0)"
    using assms(2) by (rule count_list_distinct)
  then show ?case using Cons by simp
qed


text \<open>
  Claim C6, amended. A keyword matches a theme when its lower-cased text contains the
  theme as a substring. For a list of keywords with different texts, in which no keyword
  has a token of more than 3 code units twice and no token is a name that
  \<open>Object.prototype\<close> defines, the themes are the tokens of more than 3 code units
  that at least 2 keywords have. The \<open>other\<close> bucket is built from the keywords that
  match no theme, and the bucket of a theme from the keywords that match it. Every
  category, the \<open>other\<close> bucket included, is dropped when it has fewer than 2 member
  keywords.
\<close>

theorem categorize_buckets:
  "((distinct (map keyword kws)
      \<and> (\<forall>kw \<in> set kws. distinct (filter (\<lambda>t. length t > 3) (tokensOf kw))
            \<and> (\<forall>t \<in> set (tokensOf kw). t \<notin> set prototypeNames)))
     \<longrightarrow> (theme \<in> set (commonThemes kws)
            \<longleftrightarrow> length theme > 3
                \<and> 2 \<le> length (filter (\<lambda>kw. theme \<in> set (tokensOf kw)) kws)))
   \<and> otherKeywords kws
       = filter (\<lambda>kw. \<not> list_ex (\<lambda>t. stringIncludes (toLowerCase (keyword kw)) (toLowerCase t))
                            (commonThemes kws)) kws
   \<and> map_of (categorizeKeywords kws) ''other''
       = (if length (otherKeywords kws) < 2 then None else Some (otherKeywords kws))
   \<and> map_of (categorizeKeywords kws) category
       = (if category = ''other'' then
            (if length (otherKeywords kws) < 2 then None else Some (otherKeywords kws))
          else if category \<in> set (commonThemes kws) \<and> \<not> length (themeMembers kws category) < 2
          then Some (themeMembers kws category)
          else None)"
proof -
  have t: "(distinct (map keyword kws)
      \<and> (\<forall>kw \<in> set kws. distinct (filter (\<lambda>t. length t > 3) (tokensOf kw))
            \<and> (\<forall>t \<in> set (tokensOf kw). t \<notin> set prototypeNames)))
     \<longrightarrow> (theme \<in> set (commonThemes kws)
            \<longleftrightarrow> length theme > 3
                \<and> 2 \<le> length (filter (\<lambda>kw. theme \<in> set (tokensOf kw)) kws))"
  proof
    assume h: "distinct (map keyword kws)
      \<and> (\<forall>kw \<in> set kws. distinct (filter (\<lambda>t. length t > 3) (tokensOf kw))
            \<and> (\<forall>t \<in> set (tokensOf kw). t \<notin> set prototypeNames))"
    then have d: "\<forall>kw \<in> set kws. distinct (filter (\<lambda>t. length t > 3) (tokensOf kw))"
      by blast
    show "theme \<in> set (commonThemes kws)
            \<longleftrightarrow> length theme > 3
                \<and> 2 \<le> length (filter (\<lambda>kw. theme \<in> set (tokensOf kw)) kws)"
    proof (cases "length theme > 3")
      case False
      then show ?thesis by (simp add: commonThemes_iff)
    next
      case True
      note c = count_tokens_keywords [OF d True]
      show ?thesis
      proof (cases "theme \<in> set prototypeNames")
        case False
        then show ?thesis using True c by (simp add: commonThemes_iff)
      next
        case proto: True
        then have "\<forall>kw \<in> set kws. theme \<notin> set (tokensOf kw)" using h by blast
        then have "filter (\<lambda>kw. theme \<in> set (tokensOf kw)) kws = []"
          by (simp add: filter_empty_conv)
        then show ?thesis using proto by (simp add: commonThemes_iff)
      qed
    qed
  qed
  have a: "map_of (categorizeKeywords kws) ''other''
       = (if length (otherKeywords kws) < 2 then None else Some (otherKeywords kws))"
    by (simp add: map_of_categorizeKeywords)
  have b: "map_of (categorizeKeywords kws) category
       = (if category = ''other'' then
            (if length (otherKeywords kws) < 2 then None else Some (otherKeywords kws))
          else if category \<in> set (commonThemes kws) \<and> \<not> length (themeMembers kws category) < 2
          then Some (themeMembers kws category)
          else None)"
    by (simp add: map_of_categorizeKeywords)
  show ?thesis
    using t otherKeywords_eq [of kws] a b by blast
qed

theorem categorize_buckets_witness:
  "distinct (map keyword (map (\<lambda>s. \<lparr>keyword = s, props = []\<rparr>) [''fitness tracker'', ''Fitness app'', ''chess'']))
   \<and> list_all (\<lambda>kw. distinct (filter (\<lambda>t. length t > 3) (tokensOf kw))
                    \<and> list_all (\<lambda>t. t \<notin> set prototypeNames) (tokensOf kw))
        (map (\<lambda>s. \<lparr>keyword = s, props = []\<rparr>) [''fitness tracker'', ''Fitness app'', ''chess''])
   \<and> ''fitness'' \<in> set (commonThemes (map (\<lambda>s. \<lparr>keyword = s, props = []\<rparr>) [''fitness tracker'', ''Fitness app'', ''chess'']))
   \<and> 2 \<le> length (filter (\<lambda>kw. ''fitness'' \<in> set (tokensOf kw))
                   (map (\<lambda>s. \<lparr>keyword = s, props = []\<rparr>) [''fitness tracker'', ''Fitness app'', ''chess'']))"
proof -
  let ?K = "(map (\<lambda>s. \<lparr>keyword = s, props = []\<rparr>) [''fitness tracker'', ''Fitness app'', ''chess''])"
  have h1: "distinct (map keyword ?K)" by code_simp
  have h2: "list_all (\<lambda>kw. distinct (filter (\<lambda>t. length t > 3) (tokensOf kw))
                    \<and> list_all (\<lambda>t. t \<notin> set prototypeNames) (tokensOf kw)) ?K"
    by code_simp
  have h: "distinct (map keyword ?K)
      \<and> (\<forall>kw \<in> set ?K. distinct (filter (\<lambda>t. length t > 3) (tokensOf kw))
            \<and> (\<forall>t \<in> set (tokensOf kw). t \<notin> set prototypeNames))"
    using h1 h2 unfolding list_all_iff by blast
  have r: "length ''fitness'' > 3
      \<and> 2 \<le> length (filter (\<lambda>kw. ''fitness'' \<in> set (tokensOf kw)) ?K)"
    by code_simp
  have "''fitness'' \<in> set (commonThemes ?K)"
    using categorize_buckets [of ?K "''fitness''"] h r by blast
  then show ?thesis using h1 h2 r by blast
qed

text \<open>
  Against claim C6 as stated: of the keywords \<open>fitness tracker\<close>, \<open>Fitness app\<close> and
  \<open>chess\<close>, the last matches no theme, and the result has no \<open>other\<close> bucket: with
  one member it is dropped like a theme. And of \<open>gameplay\<close>, \<open>fun game\<close> and
  \<open>best game\<close>, the first shares no token with another keyword, and it is not put in
  the \<open>other\<close> bucket, since its text contains the theme \<open>game\<close>.
\<close>

theorem other_bucket_counterexample:
  "commonThemes (map (\<lambda>s. \<lparr>keyword = s, props = []\<rparr>) [''fitness tracker'', ''Fitness app'', ''chess''])
     = [''fitness'']
   \<and> categorizeKeywords (map (\<lambda>s. \<lparr>keyword = s, props = []\<rparr>) [''fitness tracker'', ''Fitness app'', ''chess''])
     = [(''fitness'', [\<lparr>keyword = ''fitness tracker'', props = []\<rparr>,
                     \<lparr>keyword = ''Fitness app'', props = []\<rparr>])]
   \<and> map_of (categorizeKeywords
         (map (\<lambda>s. \<lparr>keyword = s, props = []\<rparr>) [''fitness tracker'', ''Fitness app'', ''chess'']))
       ''other'' = None
   \<and> splitWs (toLowerCase ''gameplay'') = [''gameplay'']
   \<and> commonThemes (map (\<lambda>s. \<lparr>keyword = s, props = []\<rparr>) [''gameplay'', ''fun game'', ''best game''])
     = [''game'']
   \<and> otherKeywords (map (\<lambda>s. \<lparr>keyword = s, props = []\<rparr>) [''gameplay'', ''fun game'', ''best game''])
     = []"
  by code_simp

subsection \<open>Insight aggregation\<close>

lemma topFive_eq:
  "topFive p a h
     = (Suc (length h),
        h @ [sortBy byVolumeDesc (filter p (h ! a)),
             take 5 (sortBy byVolumeDesc (filter p (h ! a)))])"
  by (simp add: topFive_def arrayFilter_def arraySort_def arraySlice_def alloc_def)

lemma nth_append_left: "a < length h \<Longrightarrow> (h @ xs) ! a = h ! a"
  by (simp add: nth_append)

lemma nth_append_at: "(h @ x # xs) ! length h = x"
  by simp

lemma nth_append_at_Suc: "(h @ x # y # xs) ! Suc (length h) = y"
  by (simp add: nth_append)

lemma insights_shape:
  assumes "a < length h"
  shows "generateKeywordInsights details a h
     = (\<lparr>trendingKeywords = take 5 (sortBy byVolumeDesc (filter isTrending (h ! a))),
         lowCompetitionOpportunities = take 5 (sortBy byVolumeDesc (filter isLowCompetition (h ! a))),
         highVolumeKeywords = take 5 (sortBy byVolumeDesc (filter hasVolume (h ! a))),
         underperformingKeywords = take 5 (sortBy byVolumeDesc (filter isUnderperforming (h ! a))),
         keywordCategories = categorizeKeywords (h ! a),
         summary = generateInsightsSummary details (h ! a)
                     (take 5 (sortBy byVolumeDesc (filter isLowCompetition (h ! a))))
                     (take 5 (sortBy byVolumeDesc (filter isUnderperforming (h ! a))))\<rparr>,
        h @ [sortBy byVolumeDesc (filter isTrending (h ! a)),
             take 5 (sortBy byVolumeDesc (filter isTrending (h ! a))),
             sortBy byVolumeDesc (filter isLowCompetition (h ! a)),
             take 5 (sortBy byVolumeDesc (filter isLowCompetition (h ! a))),
             sortBy byVolumeDesc (filter hasVolume (h ! a)),
             take 5 (sortBy byVolumeDesc (filter hasVolume (h ! a))),
             sortBy byVolumeDesc (filter isUnderperforming (h ! a)),
             take 5 (sortBy byVolumeDesc (filter isUnderperforming (h ! a)))])"
proof -
  let ?t = "sortBy byVolumeDesc (filter isTrending (h ! a))"
  let ?l = "sortBy byVolumeDesc (filter isLowCompetition (h ! a))"
  let ?v = "sortBy byVolumeDesc (filter hasVolume (h ! a))"
  let ?u = "sortBy byVolumeDesc (filter isUnderperforming (h ! a))"
  let ?h1 = "h @ [?t, take 5 ?t]"
  let ?h2 = "?h1 @ [?l, take 5 ?l]"
  let ?h3 = "?h2 @ [?v, take 5 ?v]"
  let ?h4 = "?h3 @ [?u, take 5 ?u]"
  have a1: "?h1 ! a = h ! a" using assms by (simp add: nth_append)
  have a2: "?h2 ! a = h ! a" using assms by (simp add: nth_append)
  have a3: "?h3 ! a = h ! a" using assms by (simp add: nth_append)
  have a4: "?h4 ! a = h ! a" using assms by (simp add: nth_append)
  have s1: "topFive isTrending a h = (Suc (length h), ?h1)"
    by (rule topFive_eq)
  have s2: "topFive isLowCompetition a ?h1 = (Suc (length ?h1), ?h2)"
    unfolding topFive_eq a1 ..
  have s3: "topFive hasVolume a ?h2 = (Suc (length ?h2), ?h3)"
    unfolding topFive_eq a2 ..
  have s4: "topFive isUnderperforming a ?h3 = (Suc (length ?h3), ?h4)"
    unfolding topFive_eq a3 ..
  have n1: "?h4 ! Suc (length h) = take 5 ?t" by (simp add: nth_append)
  have n2: "?h4 ! Suc (length ?h1) = take 5 ?l" by (simp add: nth_append)
  have n3: "?h4 ! Suc (length ?h2) = take 5 ?v" by (simp add: nth_append)
  have n4: "?h4 ! Suc (length ?h3) = take 5 ?u" by (simp add: nth_append)
  have "generateKeywordInsights details a h
     = (\<lparr>trendingKeywords = ?h4 ! Suc (length h),
         lowCompetitionOpportunities = ?h4 ! Suc (length ?h1),
         highVolumeKeywords = ?h4 ! Suc (length ?h2),
         underperformingKeywords = ?h4 ! Suc (length ?h3),
         keywordCategories = categorizeKeywords (h ! a),
         summary = generateInsightsSummary details (?h4 ! a)
                     (?h4 ! Suc (length ?h1)) (?h4 ! Suc (length ?h3))\<rparr>, ?h4)"
    unfolding generateKeywordInsights_def Let_def s1 prod.case s2 s3 s4 ..
  then show ?thesis
    unfolding n1 n2 n3 n4 a4 by simp
qed

text \<open>
  Claim C8. The insight aggregation is deterministic and leaves its input alone. It
  takes no random source (its source calls \<open>Math.random\<close> nowhere): its insights (the
  trending, low-competition, high-volume and underperforming lists, the categories and
  the summary) are a function of the app details and the contents of the keyword array
  alone, whatever the store and the address. Every array that existed before the call,
  the keyword array among them, has the same contents after it: the sorts run on fresh
  copies. So a second run on the store the first run left gives identical insights.
\<close>

theorem insights_deterministic:
  assumes "kwsAddr < length h"
  shows "fst (generateKeywordInsights details kwsAddr
               (snd (generateKeywordInsights details kwsAddr h)))
           = fst (generateKeywordInsights details kwsAddr h)
       \<and> take (length h) (snd (generateKeywordInsights details kwsAddr h)) = h
       \<and> snd (generateKeywordInsights details kwsAddr h) ! kwsAddr = h ! kwsAddr
       \<and> (\<forall>h' kwsAddr'. kwsAddr' < length h' \<and> h' ! kwsAddr' = h ! kwsAddr
             \<longrightarrow> fst (generateKeywordInsights details kwsAddr' h')
                 = fst (generateKeywordInsights details kwsAddr h))"
proof -
  let ?h1 = "snd (generateKeywordInsights details kwsAddr h)"
  have frame: "take (length h) ?h1 = h"
    by (simp add: insights_shape [OF assms])
  have len: "kwsAddr < length ?h1"
    using assms by (simp add: insights_shape [OF assms])
  have same: "?h1 ! kwsAddr = h ! kwsAddr"
    using assms by (simp add: insights_shape [OF assms] nth_append)
  have indep: "\<forall>h' kwsAddr'. kwsAddr' < length h' \<and> h' ! kwsAddr' = h ! kwsAddr
             \<longrightarrow> fst (generateKeywordInsights details kwsAddr' h')
                 = fst (generateKeywordInsights details kwsAddr h)"
    by (simp add: insights_shape assms)
  have twice: "fst (generateKeywordInsights details kwsAddr ?h1)
                 = fst (generateKeywordInsights details kwsAddr h)"
    using indep len same by blast
  show ?thesis using twice frame same indep by blast
qed

theorem insights_deterministic_witness:
  "(0::nat) < length [[\<lparr>keyword = ''run'', props = [(''volume'', NumV (Finite 900))]\<rparr>,
                \<lparr>keyword = ''chess'', props = []\<rparr>]]
   \<and> fst (generateKeywordInsights [] 0
           (snd (generateKeywordInsights [] 0
              [[\<lparr>keyword = ''run'', props = [(''volume'', NumV (Finite 900))]\<rparr>,
                \<lparr>keyword = ''chess'', props = []\<rparr>]])))
     = fst (generateKeywordInsights [] 0
              [[\<lparr>keyword = ''run'', props = [(''volume'', NumV (Finite 900))]\<rparr>,
                \<lparr>keyword = ''chess'', props = []\<rparr>]])
   \<and> snd (generateKeywordInsights [] 0
              [[\<lparr>keyword = ''run'', props = [(''volume'', NumV (Finite 900))]\<rparr>,
                \<lparr>keyword = ''chess'', props = []\<rparr>]]) ! 0
     = [[\<lparr>keyword = ''run'', props = [(''volume'', NumV (Finite 900))]\<rparr>,
                \<lparr>keyword = ''chess'', props = []\<rparr>]] ! 0"
proof -
  have h: "(0::nat) < length [[\<lparr>keyword = ''run'', props = [(''volume'', NumV (Finite 900))]\<rparr>,
                \<lparr>keyword = ''chess'', props = []\<rparr>]]"
    by simp
  from insights_deterministic [OF h, of "[]"] h show ?thesis by blast
qed

subsection \<open>Prediction service\<close>













end
